theory Spec2Isabelle
  imports Complex_Main "HOL-Library.Sublist"
begin


section \<open>The three query builders\<close>

text \<open>\<^verbatim>\<open>str(i)\<close> for an index of \<^verbatim>\<open>range\<close>: the decimal digits of a natural number.\<close>

definition digit_char :: "nat \<Rightarrow> char" where
  "digit_char d = ''0123456789'' ! d"

fun str_nat :: "nat \<Rightarrow> string" where
  "str_nat n = (if n < 10 then [digit_char n] else str_nat (n div 10) @ [digit_char (n mod 10)])"

declare str_nat.simps [simp del]

text \<open>\<^verbatim>\<open>range(n)\<close> for a Python \<^verbatim>\<open>int\<close>: empty when \<open>n \<le> 0\<close>.\<close>

definition py_range :: "int \<Rightarrow> nat list" where
  "py_range n = [0..<nat n]"

text \<open>\<^verbatim>\<open>sep.join(parts)\<close>.\<close>

fun join :: "string \<Rightarrow> string list \<Rightarrow> string" where
  "join sep [] = []"
| "join sep [x] = x"
| "join sep (x # y # ys) = x @ sep @ join sep (y # ys)"

text \<open>
  The value of \<^verbatim>\<open>query\<close> in \<^verbatim>\<open>_test_alias_overloading\<close> (lines 126 and 127),
  \<^verbatim>\<open>_test_directive_overloading\<close> (lines 137 and 138) and \<^verbatim>\<open>_test_field_duplication\<close>
  (lines 148 and 149). In an f-string \<^verbatim>\<open>{{\<close> and \<^verbatim>\<open>}}\<close> are the literal braces.
\<close>

definition alias_overloading_query :: "string \<Rightarrow> int \<Rightarrow> string" where
  "alias_overloading_query field_name num_aliases =
     (let alias_parts =
            map (\<lambda>i. ''alias_'' @ str_nat i @ '': '' @ field_name @ '' { id name }'')
                (py_range num_aliases)
      in ''query {'' @ join '' '' alias_parts @ ''}'')"

definition directive_overloading_query :: "string \<Rightarrow> int \<Rightarrow> string" where
  "directive_overloading_query field_name num_directives =
     (let directives = join '' '' (map (\<lambda>_. ''@include(if: true)'') (py_range num_directives))
      in ''query { '' @ field_name @ '' '' @ directives @ '' { id name } }'')"

definition field_duplication_query :: "string \<Rightarrow> int \<Rightarrow> string" where
  "field_duplication_query field_name num_duplicates =
     (let duplicated_fields = join '' '' (map (\<lambda>_. ''id name'') (py_range num_duplicates))
      in ''query { '' @ field_name @ '' { '' @ duplicated_fields @ '' } }'')"

section \<open>Values of the Python program\<close>

text \<open>
  The program works on whatever \<^verbatim>\<open>response.json()\<close> returns: a parsed JSON document
  made of Python's \<^verbatim>\<open>None\<close>, \<^verbatim>\<open>bool\<close>, numbers, \<^verbatim>\<open>str\<close>, \<^verbatim>\<open>list\<close> and \<^verbatim>\<open>dict\<close>.
  A \<^verbatim>\<open>dict\<close> is an association list in insertion order, looked up with \<open>map_of\<close>.
  The program never computes with a number; it only observes whether one is zero
  (truthiness), so a number is represented by an integer and a float stands for any
  integer with the same zero-ness.
\<close>

datatype json =
    JNull
  | JBool bool
  | JNum int
  | JStr string
  | JArr "json list"
  | JObj "(string \<times> json) list"

text \<open>The exceptions that the code can meet, by class.\<close>

datatype exn =
    KeyError string
  | TypeError
  | AttributeError
  | RequestException string
  | JSONDecodeError
  | ValueError
  | RecursionError

text \<open>\<^verbatim>\<open>bool(v)\<close>: the truth value Python gives a value in \<^verbatim>\<open>if v\<close> and \<^verbatim>\<open>v or d\<close>.\<close>

fun truthy :: "json \<Rightarrow> bool" where
  "truthy JNull = False"
| "truthy (JBool b) = b"
| "truthy (JNum n) = (n \<noteq> 0)"
| "truthy (JStr s) = (s \<noteq> [])"
| "truthy (JArr xs) = (xs \<noteq> [])"
| "truthy (JObj kvs) = (kvs \<noteq> [])"

text \<open>\<^verbatim>\<open>v[key]\<close> with a \<^verbatim>\<open>str\<close> key: only a dict accepts it, and a missing key raises.\<close>

fun py_getitem :: "json \<Rightarrow> string \<Rightarrow> exn + json" where
  "py_getitem (JObj kvs) key =
     (case map_of kvs key of None \<Rightarrow> Inl (KeyError key) | Some v \<Rightarrow> Inr v)"
| "py_getitem _ key = Inl TypeError"

text \<open>\<^verbatim>\<open>v.get(key, default)\<close>: only a dict has the method.\<close>

fun py_get :: "json \<Rightarrow> string \<Rightarrow> json \<Rightarrow> exn + json" where
  "py_get (JObj kvs) key dflt =
     (case map_of kvs key of None \<Rightarrow> Inr dflt | Some v \<Rightarrow> Inr v)"
| "py_get _ key dflt = Inl AttributeError"

text \<open>
  \<^verbatim>\<open>key in v\<close> with a \<^verbatim>\<open>str\<close> key: key membership on a dict, element membership on a
  list, substring test on a \<^verbatim>\<open>str\<close>, and a TypeError on anything else.
\<close>

fun py_contains :: "string \<Rightarrow> json \<Rightarrow> exn + bool" where
  "py_contains key (JObj kvs) = Inr (key \<in> set (map fst kvs))"
| "py_contains key (JArr xs) = Inr (JStr key \<in> set xs)"
| "py_contains key (JStr s) = Inr (sublist key s)"
| "py_contains key _ = Inl TypeError"

text \<open>
  \<^verbatim>\<open>for x in v\<close>: the elements of a list, the keys of a dict, the characters of a
  \<^verbatim>\<open>str\<close>; nothing else is iterable.
\<close>

fun py_iter :: "json \<Rightarrow> exn + json list" where
  "py_iter (JArr xs) = Inr xs"
| "py_iter (JObj kvs) = Inr (map (\<lambda>kv. JStr (fst kv)) kvs)"
| "py_iter (JStr s) = Inr (map (\<lambda>c. JStr [c]) s)"
| "py_iter _ = Inl TypeError"

text \<open>\<^verbatim>\<open>v.startswith(p)\<close>: only a \<^verbatim>\<open>str\<close> has the method.\<close>

fun startswith :: "json \<Rightarrow> string \<Rightarrow> exn + bool" where
  "startswith (JStr s) p = Inr (prefix p s)"
| "startswith _ p = Inl AttributeError"

section \<open>The schema analyzer\<close>

text \<open>An element of \<^verbatim>\<open>self.testable_fields\<close>: a dict with exactly these two keys.\<close>

record testable_field =
  type_name :: json
  field_name :: json

text \<open>
  The expression bound to \<^verbatim>\<open>is_object\<close> (lines 63 to 66). \<^verbatim>\<open>or\<close> is short-circuit:
  the \<^verbatim>\<open>ofType\<close> lookup only runs when the first test is false.
\<close>

definition is_object :: "json \<Rightarrow> exn + bool" where
  "is_object field_type =
     (case py_get field_type ''kind'' JNull of
        Inl e \<Rightarrow> Inl e
      | Inr kind \<Rightarrow>
          if kind \<in> set [JStr ''OBJECT'', JStr ''LIST''] then Inr True
          else (case py_get field_type ''ofType'' (JObj []) of
                  Inl e \<Rightarrow> Inl e
                | Inr of_type \<Rightarrow>
                    (case py_get (if truthy of_type then of_type else JObj []) ''kind'' JNull of
                       Inl e \<Rightarrow> Inl e
                     | Inr kind' \<Rightarrow> Inr (kind' \<in> set [JStr ''OBJECT'', JStr ''LIST'']))))"

text \<open>
  The body of the inner loop (lines 60 to 72) for one \<^verbatim>\<open>field\<close>. The list is
  \<^verbatim>\<open>self.testable_fields\<close>, returned updated; an exception leaves it as it was when
  the exception was raised.
\<close>

definition analyze_field :: "json \<Rightarrow> json \<Rightarrow> testable_field list \<Rightarrow> (exn + unit) \<times> testable_field list" where
  "analyze_field type_info field tfs =
     (case py_get field ''type'' (JObj []) of
        Inl e \<Rightarrow> (Inl e, tfs)
      | Inr field_type \<Rightarrow>
          (case is_object field_type of
             Inl e \<Rightarrow> (Inl e, tfs)
           | Inr b \<Rightarrow>
               if b then
                 (case py_getitem type_info ''name'' of
                    Inl e \<Rightarrow> (Inl e, tfs)
                  | Inr tn \<Rightarrow>
                      (case py_getitem field ''name'' of
                         Inl e \<Rightarrow> (Inl e, tfs)
                       | Inr fn \<Rightarrow> (Inr (), tfs @ [\<lparr>type_name = tn, field_name = fn\<rparr>])))
               else (Inr (), tfs)))"

text \<open>The inner loop \<^verbatim>\<open>for field in type_info['fields']\<close>.\<close>

fun analyze_fields :: "json \<Rightarrow> json list \<Rightarrow> testable_field list \<Rightarrow> (exn + unit) \<times> testable_field list" where
  "analyze_fields type_info [] tfs = (Inr (), tfs)"
| "analyze_fields type_info (field # rest) tfs =
     (case analyze_field type_info field tfs of
        (Inl e, tfs') \<Rightarrow> (Inl e, tfs')
      | (Inr _, tfs') \<Rightarrow> analyze_fields type_info rest tfs')"

text \<open>The body of the outer loop (lines 54 to 72) for one \<^verbatim>\<open>type_info\<close>.\<close>

definition analyze_type :: "json \<Rightarrow> testable_field list \<Rightarrow> (exn + unit) \<times> testable_field list" where
  "analyze_type type_info tfs =
     (case py_getitem type_info ''name'' of
        Inl e \<Rightarrow> (Inl e, tfs)
      | Inr name \<Rightarrow>
          (case startswith name ''__'' of
             Inl e \<Rightarrow> (Inl e, tfs)
           | Inr internal \<Rightarrow>
               if internal then (Inr (), tfs)
               else (case py_get type_info ''fields'' JNull of
                       Inl e \<Rightarrow> (Inl e, tfs)
                     | Inr fs \<Rightarrow>
                         if truthy fs then
                           (case py_getitem type_info ''fields'' of
                              Inl e \<Rightarrow> (Inl e, tfs)
                            | Inr fs' \<Rightarrow>
                                (case py_iter fs' of
                                   Inl e \<Rightarrow> (Inl e, tfs)
                                 | Inr field_list \<Rightarrow> analyze_fields type_info field_list tfs))
                         else (Inr (), tfs))))"

text \<open>The outer loop \<^verbatim>\<open>for type_info in schema['types']\<close>.\<close>

fun analyze_types :: "json list \<Rightarrow> testable_field list \<Rightarrow> (exn + unit) \<times> testable_field list" where
  "analyze_types [] tfs = (Inr (), tfs)"
| "analyze_types (type_info # rest) tfs =
     (case analyze_type type_info tfs of
        (Inl e, tfs') \<Rightarrow> (Inl e, tfs')
      | (Inr _, tfs') \<Rightarrow> analyze_types rest tfs')"

section \<open>The network, the clock and the console\<close>

text \<open>
  What the program does to the outside is kept in the state: the calls of
  \<^verbatim>\<open>requests.post\<close> made so far (oldest first), the number of calls of \<^verbatim>\<open>time.time\<close>,
  and what was printed, one value per \<^verbatim>\<open>print\<close> statement (or group of statements that
  always run together) with the values it formats. The state also holds the attributes
  of \<^verbatim>\<open>self\<close>. Printing is taken never to fail.
\<close>

record request =
  req_url :: string
  req_headers :: "(string \<times> string) list"
  req_query :: string
  req_operation_name :: "string option"

text \<open>
  A response: its \<^verbatim>\<open>text\<close>, and what \<^verbatim>\<open>json()\<close> does for it: it returns the parsed
  value or raises. For a body that is not JSON it raises JSONDecodeError; the parser
  has other failures too, which are not of that class: ValueError on an integer of more
  than 4300 digits, RecursionError on a body nested too deep.
\<close>

record response =
  body_text :: string
  body_json :: "exn + json"

text \<open>
  The contract of the HTTP library, taken as given: \<^verbatim>\<open>requests.post\<close> either raises a
  RequestException (with its message) or returns a response.
\<close>

datatype post_outcome =
    Transport_Failure string
  | Response response

datatype printed =
    Usage string
  | Testing_Endpoint string
  | Introspection_Enabled
  | Introspection_Disabled
  | Introspection_Error exn
  | Testable_Fields_Header
  | Testable_Field_Report json json
  | Starting_Tests
  | Cannot_Proceed
  | Testing_Field json json
  | Testing_Alias
  | Testing_Directive
  | Testing_Duplication
  | Response_Time real
  | Errors_Detected

text \<open>
  The environment of one run: the outcome of the \<open>k\<close>-th call of \<^verbatim>\<open>requests.post\<close>
  (counted from 0) for the request it is given, the value of the \<open>k\<close>-th call of
  \<^verbatim>\<open>time.time\<close> (a real number; rounding of floats is not modelled), Python's \<^verbatim>\<open>str\<close> on
  values that are not strings, and Python's \<^verbatim>\<open>int\<close> on a string (\<open>None\<close>: ValueError).
\<close>

record env =
  post :: "nat \<Rightarrow> request \<Rightarrow> post_outcome"
  clock :: "nat \<Rightarrow> real"
  str_other :: "json \<Rightarrow> string"
  py_int :: "string \<Rightarrow> int option"

record state =
  self_url :: string
  self_headers :: "(string \<times> string) list"
  testable_fields :: "testable_field list"
  posts :: "request list"
  clock_reads :: nat
  console :: "printed list"

definition print :: "printed \<Rightarrow> state \<Rightarrow> state" where
  "print x st = st\<lparr>console := console st @ [x]\<rparr>"

definition time_time :: "env \<Rightarrow> state \<Rightarrow> real \<times> state" where
  "time_time e st = (clock e (clock_reads st), st\<lparr>clock_reads := Suc (clock_reads st)\<rparr>)"

definition requests_post :: "env \<Rightarrow> request \<Rightarrow> state \<Rightarrow> (exn + response) \<times> state" where
  "requests_post e req st =
     (case post e (length (posts st)) req of
        Transport_Failure detail \<Rightarrow> Inl (RequestException detail)
      | Response r \<Rightarrow> Inr r,
      st\<lparr>posts := posts st @ [req]\<rparr>)"

definition response_json :: "response \<Rightarrow> exn + json" where
  "response_json r = body_json r"

text \<open>A value inside an f-string: a \<^verbatim>\<open>str\<close> is copied, anything else goes through \<^verbatim>\<open>str\<close>.\<close>

fun py_format :: "env \<Rightarrow> json \<Rightarrow> string" where
  "py_format e (JStr s) = s"
| "py_format e v = str_other e v"

section \<open>The tester\<close>

text \<open>\<^verbatim>\<open>__init__\<close>.\<close>

definition init :: "string \<Rightarrow> state \<Rightarrow> state" where
  "init u st =
     st\<lparr>self_url := u,
        self_headers := [(''Content-Type'', ''application/json''),
                         (''x-apollo-operation-name'', ''IntrospectionQuery''),
                         (''apollo-require-preflight'', ''true'')],
        testable_fields := []\<rparr>"

text \<open>The introspection query, line by line.\<close>

definition introspection_query :: string where
  "introspection_query = join [CHR 0x0A]
       ['''',
        ''        query IntrospectionQuery {'',
        ''    __schema {'',
        ''        queryType {'',
        ''            name'',
        ''        }'',
        ''        mutationType {'',
        ''            name'',
        ''        }'',
        ''        subscriptionType {'',
        ''            name'',
        ''        }'',
        ''        types {'',
        ''            ...FullType'',
        ''        }'',
        ''        directives {'',
        ''            name'',
        ''            description'',
        ''            locations'',
        ''            args {'',
        ''                ...InputValue'',
        ''            }'',
        ''        }'',
        ''    }'',
        ''}'',
        '''',
        ''fragment FullType on __Type {'',
        ''    kind'',
        ''    name'',
        ''    description'',
        ''    fields(includeDeprecated: true) {'',
        ''        name'',
        ''        description'',
        ''        args {'',
        ''            ...InputValue'',
        ''        }'',
        ''        type {'',
        ''            ...TypeRef'',
        ''        }'',
        ''        isDeprecated'',
        ''        deprecationReason'',
        ''    }'',
        ''    inputFields {'',
        ''        ...InputValue'',
        ''    }'',
        ''    interfaces {'',
        ''        ...TypeRef'',
        ''    }'',
        ''    enumValues(includeDeprecated: true) {'',
        ''        name'',
        ''        description'',
        ''        isDeprecated'',
        ''        deprecationReason'',
        ''    }'',
        ''    possibleTypes {'',
        ''        ...TypeRef'',
        ''    }'',
        ''}'',
        '''',
        ''fragment InputValue on __InputValue {'',
        ''    name'',
        ''    description'',
        ''    type {'',
        ''        ...TypeRef'',
        ''    }'',
        ''    defaultValue'',
        ''}'',
        '''',
        ''fragment TypeRef on __Type {'',
        ''    kind'',
        ''    name'',
        ''    ofType {'',
        ''        kind'',
        ''        name'',
        ''        ofType {'',
        ''            kind'',
        ''            name'',
        ''            ofType {'',
        ''                kind'',
        ''                name'',
        ''            }'',
        ''        }'',
        ''    }'',
        ''}'',
        ''        '']"

text \<open>
  \<^verbatim>\<open>_analyze_schema\<close>: the loops over \<^verbatim>\<open>schema['types']\<close>, then the report of all of
  \<^verbatim>\<open>self.testable_fields\<close> (lines 74 to 82).
\<close>

definition print_report :: "state \<Rightarrow> state" where
  "print_report st =
     st\<lparr>console := console st @ [Testable_Fields_Header] @
          map (\<lambda>field. Testable_Field_Report (type_name field) (field_name field))
              (testable_fields st)\<rparr>"

definition analyze_schema :: "json \<Rightarrow> state \<Rightarrow> (exn + unit) \<times> state" where
  "analyze_schema schema st =
     (case py_getitem schema ''types'' of
        Inl e \<Rightarrow> (Inl e, st)
      | Inr types \<Rightarrow>
          (case py_iter types of
             Inl e \<Rightarrow> (Inl e, st)
           | Inr type_list \<Rightarrow>
               (case analyze_types type_list (testable_fields st) of
                  (Inl e, tfs) \<Rightarrow> (Inl e, st\<lparr>testable_fields := tfs\<rparr>)
                | (Inr _, tfs) \<Rightarrow> (Inr (), print_report (st\<lparr>testable_fields := tfs\<rparr>)))))"

text \<open>The condition \<^verbatim>\<open>'data' in result and '__schema' in result['data']\<close> (line 37).\<close>

definition has_schema :: "json \<Rightarrow> exn + bool" where
  "has_schema result =
     (case py_contains ''data'' result of
        Inl e \<Rightarrow> Inl e
      | Inr b \<Rightarrow>
          if b then
            (case py_getitem result ''data'' of
               Inl e \<Rightarrow> Inl e
             | Inr d \<Rightarrow> py_contains ''__schema'' d)
          else Inr False)"

text \<open>The \<^verbatim>\<open>try\<close> block of \<^verbatim>\<open>test_introspection\<close> (lines 34 to 43).\<close>

definition introspection_try :: "env \<Rightarrow> request \<Rightarrow> state \<Rightarrow> (exn + bool) \<times> state" where
  "introspection_try e payload st =
     (case requests_post e payload st of
        (Inl x, st1) \<Rightarrow> (Inl x, st1)
      | (Inr response, st1) \<Rightarrow>
          (case response_json response of
             Inl x \<Rightarrow> (Inl x, st1)
           | Inr result \<Rightarrow>
               (case has_schema result of
                  Inl x \<Rightarrow> (Inl x, st1)
                | Inr b \<Rightarrow>
                    if b then
                      (let st2 = print Introspection_Enabled st1 in
                       case py_getitem result ''data'' of
                         Inl x \<Rightarrow> (Inl x, st2)
                       | Inr d \<Rightarrow>
                           (case py_getitem d ''__schema'' of
                              Inl x \<Rightarrow> (Inl x, st2)
                            | Inr schema \<Rightarrow>
                                (case analyze_schema schema st2 of
                                   (Inl x, st3) \<Rightarrow> (Inl x, st3)
                                 | (Inr _, st3) \<Rightarrow> (Inr True, st3))))
                    else (Inr False, print Introspection_Disabled st1))))"

text \<open>\<^verbatim>\<open>test_introspection\<close>: the \<^verbatim>\<open>try\<close> block under \<^verbatim>\<open>except Exception\<close>.\<close>

definition test_introspection :: "env \<Rightarrow> state \<Rightarrow> bool \<times> state" where
  "test_introspection e st =
     (let payload = \<lparr>req_url = self_url st, req_headers = self_headers st,
                      req_query = introspection_query,
                      req_operation_name = Some ''IntrospectionQuery''\<rparr>
      in case introspection_try e payload st of
           (Inr b, st') \<Rightarrow> (b, st')
         | (Inl x, st') \<Rightarrow> (False, print (Introspection_Error x) st'))"

text \<open>
  \<^verbatim>\<open>_send_query\<close>. The outer handler catches RequestException, the inner one
  JSONDecodeError; any other exception propagates. Python's \<^verbatim>\<open>None\<close> as the first
  component is \<open>JNull\<close>, as the third \<open>None\<close>.
\<close>

definition send_query :: "env \<Rightarrow> string \<Rightarrow> state \<Rightarrow> (exn + json \<times> real \<times> string option) \<times> state" where
  "send_query e query st =
     (let payload = \<lparr>req_url = self_url st, req_headers = self_headers st,
                      req_query = query, req_operation_name = None\<rparr>;
          (start_time, st1) = time_time e st
      in case requests_post e payload st1 of
           (Inl x, st2) \<Rightarrow>
             (case x of
                RequestException detail \<Rightarrow>
                  (Inr (JNull, 0, Some (''Request error: '' @ detail)), st2)
              | _ \<Rightarrow> (Inl x, st2))
         | (Inr response, st2) \<Rightarrow>
             (let (end_time, st3) = time_time e st2;
                  response_time = end_time - start_time
              in case response_json response of
                   Inr result \<Rightarrow> (Inr (result, response_time, None), st3)
                 | Inl x \<Rightarrow>
                     (case x of
                        JSONDecodeError \<Rightarrow>
                          (Inr (JNull, response_time,
                                Some (''Invalid JSON response: '' @ body_text response)), st3)
                      | RequestException detail \<Rightarrow>
                          (Inr (JNull, 0, Some (''Request error: '' @ detail)), st3)
                      | _ \<Rightarrow> (Inl x, st3))))"

text \<open>
  The condition \<^verbatim>\<open>error or (result and result.get('errors'))\<close> (lines 131, 142, 153):
  \<^verbatim>\<open>result.get\<close> runs only when \<^verbatim>\<open>error\<close> is falsy and \<^verbatim>\<open>result\<close> is truthy.
\<close>

definition errors_detected :: "string option \<Rightarrow> json \<Rightarrow> exn + bool" where
  "errors_detected error result =
     (if error \<noteq> None \<and> error \<noteq> Some [] then Inr True
      else if truthy result then
        (case py_get result ''errors'' JNull of
           Inl x \<Rightarrow> Inl x
         | Inr v \<Rightarrow> Inr (truthy v))
      else Inr False)"

definition test_alias_overloading :: "env \<Rightarrow> json \<Rightarrow> int \<Rightarrow> state \<Rightarrow> (exn + unit) \<times> state" where
  "test_alias_overloading e fname num_aliases st =
     (let st1 = print Testing_Alias st;
          query = alias_overloading_query (py_format e fname) num_aliases
      in case send_query e query st1 of
           (Inl x, st2) \<Rightarrow> (Inl x, st2)
         | (Inr (result, response_time, error), st2) \<Rightarrow>
             (let st3 = print (Response_Time response_time) st2
              in case errors_detected error result of
                   Inl x \<Rightarrow> (Inl x, st3)
                 | Inr b \<Rightarrow> (Inr (), if b then print Errors_Detected st3 else st3)))"

definition test_directive_overloading :: "env \<Rightarrow> json \<Rightarrow> int \<Rightarrow> state \<Rightarrow> (exn + unit) \<times> state" where
  "test_directive_overloading e fname num_directives st =
     (let st1 = print Testing_Directive st;
          query = directive_overloading_query (py_format e fname) num_directives
      in case send_query e query st1 of
           (Inl x, st2) \<Rightarrow> (Inl x, st2)
         | (Inr (result, response_time, error), st2) \<Rightarrow>
             (let st3 = print (Response_Time response_time) st2
              in case errors_detected error result of
                   Inl x \<Rightarrow> (Inl x, st3)
                 | Inr b \<Rightarrow> (Inr (), if b then print Errors_Detected st3 else st3)))"

definition test_field_duplication :: "env \<Rightarrow> json \<Rightarrow> int \<Rightarrow> state \<Rightarrow> (exn + unit) \<times> state" where
  "test_field_duplication e fname num_duplicates st =
     (let st1 = print Testing_Duplication st;
          query = field_duplication_query (py_format e fname) num_duplicates
      in case send_query e query st1 of
           (Inl x, st2) \<Rightarrow> (Inl x, st2)
         | (Inr (result, response_time, error), st2) \<Rightarrow>
             (let st3 = print (Response_Time response_time) st2
              in case errors_detected error result of
                   Inl x \<Rightarrow> (Inl x, st3)
                 | Inr b \<Rightarrow> (Inr (), if b then print Errors_Detected st3 else st3)))"

text \<open>\<^verbatim>\<open>test_overloading_attacks\<close>: the three tests in turn; an exception ends it.\<close>

definition test_overloading_attacks :: "env \<Rightarrow> testable_field \<Rightarrow> int \<Rightarrow> state \<Rightarrow> (exn + unit) \<times> state" where
  "test_overloading_attacks e field_info num_iterations st =
     (let tname = type_name field_info;
          fname = field_name field_info;
          st1 = print (Testing_Field tname fname) st
      in case test_alias_overloading e fname num_iterations st1 of
           (Inl x, st2) \<Rightarrow> (Inl x, st2)
         | (Inr _, st2) \<Rightarrow>
             (case test_directive_overloading e fname num_iterations st2 of
                (Inl x, st3) \<Rightarrow> (Inl x, st3)
              | (Inr _, st3) \<Rightarrow> test_field_duplication e fname num_iterations st3))"

section \<open>The orchestrator\<close>

text \<open>The loop \<^verbatim>\<open>for field_info in tester.testable_fields\<close> of \<^verbatim>\<open>main\<close>.\<close>

fun test_all_fields :: "env \<Rightarrow> testable_field list \<Rightarrow> int \<Rightarrow> state \<Rightarrow> (exn + unit) \<times> state" where
  "test_all_fields e [] num_iterations st = (Inr (), st)"
| "test_all_fields e (field_info # rest) num_iterations st =
     (case test_overloading_attacks e field_info num_iterations st of
        (Inl x, st') \<Rightarrow> (Inl x, st')
      | (Inr _, st') \<Rightarrow> test_all_fields e rest num_iterations st')"

text \<open>
  How the process ends: an exit code (0 when \<^verbatim>\<open>main\<close> returns) or an exception that
  nothing catches.
\<close>

datatype exit = Exit_Code nat | Uncaught exn

text \<open>The state before \<^verbatim>\<open>main\<close>: nothing posted, nothing printed.\<close>

definition start :: state where
  "start = \<lparr>self_url = [], self_headers = [], testable_fields = [], posts = [],
            clock_reads = 0, console = []\<rparr>"

text \<open>
  \<^verbatim>\<open>main\<close> from line 164 on, with the endpoint and the iteration count it has read from
  the command line.
\<close>

definition run :: "env \<Rightarrow> string \<Rightarrow> int \<Rightarrow> exit \<times> state" where
  "run e u num_iterations =
     (let tester = init u (print (Testing_Endpoint u) start)
      in case test_introspection e tester of
           (True, st1) \<Rightarrow>
             (case test_all_fields e (testable_fields st1) num_iterations
                     (print Starting_Tests st1) of
                (Inl x, st2) \<Rightarrow> (Uncaught x, st2)
              | (Inr _, st2) \<Rightarrow> (Exit_Code 0, st2))
         | (False, st1) \<Rightarrow> (Exit_Code 0, print Cannot_Proceed st1))"

text \<open>
  \<^verbatim>\<open>main\<close>, given \<^verbatim>\<open>sys.argv\<close> as the program name and the arguments after it.
\<close>

definition main :: "env \<Rightarrow> string \<Rightarrow> string list \<Rightarrow> exit \<times> state" where
  "main e prog args =
     (let argv = prog # args in
      if length argv < 2 then (Exit_Code 1, print (Usage (argv ! 0)) start)
      else
        (let u = argv ! 1 in
         case (if length argv > 2 then py_int e (argv ! 2) else Some 100) of
           None \<Rightarrow> (Uncaught ValueError, start)
         | Some num_iterations \<Rightarrow> run e u num_iterations))"

section \<open>The analyzer as the specification words it\<close>

text \<open>
  The definitions of this section follow the specification, not the code; the theorems
  compare them with the code's functions above.
\<close>

fun is_dict :: "json \<Rightarrow> bool" where
  "is_dict (JObj kvs) = True"
| "is_dict _ = False"

fun has_key :: "string \<Rightarrow> json \<Rightarrow> bool" where
  "has_key key (JObj kvs) = (map_of kvs key \<noteq> None)"
| "has_key key _ = False"

text \<open>A TypeRef whose \<open>kind\<close> is OBJECT or LIST.\<close>

fun kind_is_object_or_list :: "json \<Rightarrow> bool" where
  "kind_is_object_or_list (JObj kvs) =
     (map_of kvs ''kind'' = Some (JStr ''OBJECT'') \<or> map_of kvs ''kind'' = Some (JStr ''LIST''))"
| "kind_is_object_or_list _ = False"

text \<open>
  Testable: the TypeRef's kind is OBJECT or LIST, or its \<open>ofType\<close> is present and that
  one's kind is OBJECT or LIST.
\<close>

fun spec_testable :: "json \<Rightarrow> bool" where
  "spec_testable (JObj kvs) =
     (kind_is_object_or_list (JObj kvs) \<or>
      (case map_of kvs ''ofType'' of None \<Rightarrow> False | Some of_type \<Rightarrow> kind_is_object_or_list of_type))"
| "spec_testable _ = False"

text \<open>The value under \<open>name\<close>, and a field's TypeRef (an empty object when there is none).\<close>

definition name_of :: "json \<Rightarrow> json" where
  "name_of v = (case py_getitem v ''name'' of Inr n \<Rightarrow> n | Inl _ \<Rightarrow> JNull)"

definition field_type_ref :: "json \<Rightarrow> json" where
  "field_type_ref field = (case py_get field ''type'' (JObj []) of Inr t \<Rightarrow> t | Inl _ \<Rightarrow> JObj [])"

definition field_testable :: "json \<Rightarrow> bool" where
  "field_testable field = spec_testable (field_type_ref field)"

definition entry :: "json \<Rightarrow> json \<Rightarrow> testable_field" where
  "entry type_info field = \<lparr>type_name = name_of type_info, field_name = name_of field\<rparr>"

text \<open>The internal-type marker, on a name and on a type entry.\<close>

fun internal_name :: "json \<Rightarrow> bool" where
  "internal_name (JStr s) = prefix ''__'' s"
| "internal_name _ = False"

definition is_internal :: "json \<Rightarrow> bool" where
  "is_internal type_info =
     (case py_getitem type_info ''name'' of Inr (JStr s) \<Rightarrow> prefix ''__'' s | _ \<Rightarrow> False)"

text \<open>The fields of a type entry: none when the key is missing or holds no list.\<close>

definition fields_of :: "json \<Rightarrow> json list" where
  "fields_of type_info =
     (case py_get type_info ''fields'' JNull of Inr (JArr fs) \<Rightarrow> fs | _ \<Rightarrow> [])"

text \<open>
  The analyzer's output: for each type that is not internal, in the order of the array,
  its testable fields in their order; nothing is removed.
\<close>

definition spec_type_output :: "json \<Rightarrow> testable_field list" where
  "spec_type_output type_info =
     (if is_internal type_info then []
      else map (entry type_info) (filter field_testable (fields_of type_info)))"

definition spec_analyze :: "json list \<Rightarrow> testable_field list" where
  "spec_analyze types = concat (map spec_type_output types)"

text \<open>
  The shapes on which the code raises nothing. A TypeRef: an object that is already
  OBJECT or LIST, or whose \<open>ofType\<close> is missing, falsy or an object. A field: an object
  with such a TypeRef and, when it is testable, a \<open>name\<close> key. A type entry: an object
  whose \<open>name\<close> is a string and that is internal, or whose \<open>fields\<close> is missing, falsy
  or a list of such fields.
\<close>

fun type_ref_ok :: "json \<Rightarrow> bool" where
  "type_ref_ok (JObj kvs) =
     (kind_is_object_or_list (JObj kvs) \<or>
      (case map_of kvs ''ofType'' of None \<Rightarrow> True | Some of_type \<Rightarrow> \<not> truthy of_type \<or> is_dict of_type))"
| "type_ref_ok _ = False"

definition field_ok :: "json \<Rightarrow> bool" where
  "field_ok field \<longleftrightarrow>
     is_dict field \<and> type_ref_ok (field_type_ref field) \<and>
     (field_testable field \<longrightarrow> has_key ''name'' field)"

definition fields_ok :: "json \<Rightarrow> bool" where
  "fields_ok fs \<longleftrightarrow> \<not> truthy fs \<or> (case fs of JArr l \<Rightarrow> list_all field_ok l | _ \<Rightarrow> False)"

definition type_ok :: "json \<Rightarrow> bool" where
  "type_ok type_info \<longleftrightarrow>
     (case py_getitem type_info ''name'' of
        Inr (JStr s) \<Rightarrow>
          prefix ''__'' s \<or>
          (case py_get type_info ''fields'' JNull of Inr fs \<Rightarrow> fields_ok fs | Inl _ \<Rightarrow> False)
      | _ \<Rightarrow> False)"

section \<open>The queries as the specification words them\<close>

text \<open>
  The number of positions of a text at which a pattern occurs.
\<close>

fun occurrences :: "string \<Rightarrow> string \<Rightarrow> nat" where
  "occurrences p [] = (if prefix p [] then 1 else 0)"
| "occurrences p (c # cs) = (if prefix p (c # cs) then 1 else 0) + occurrences p cs"

text \<open>No proper, non-empty end of the pattern starts the text \<open>r\<close>.\<close>

fun no_overlap :: "string \<Rightarrow> string \<Rightarrow> bool" where
  "no_overlap [] r = True"
| "no_overlap (a # p) r = ((p = [] \<or> \<not> prefix p r) \<and> no_overlap p r)"

text \<open>
  \<open>n\<close> aliased selections of the field, named \<open>alias_0\<close> to \<open>alias_{n-1}\<close>, each with the
  sub-selection \<open>{ id name }\<close>, single spaces between them.
\<close>

definition spec_alias_selection :: "string \<Rightarrow> nat \<Rightarrow> string" where
  "spec_alias_selection f i = ''alias_'' @ str_nat i @ '': '' @ f @ '' { id name }''"

fun spec_alias_selections :: "string \<Rightarrow> nat \<Rightarrow> string" where
  "spec_alias_selections f 0 = []"
| "spec_alias_selections f (Suc 0) = spec_alias_selection f 0"
| "spec_alias_selections f (Suc (Suc n)) =
     spec_alias_selections f (Suc n) @ '' '' @ spec_alias_selection f (Suc n)"

text \<open>A text repeated \<open>n\<close> times, single spaces between the copies.\<close>

fun spec_repeat :: "string \<Rightarrow> nat \<Rightarrow> string" where
  "spec_repeat s 0 = []"
| "spec_repeat s (Suc 0) = s"
| "spec_repeat s (Suc (Suc n)) = s @ '' '' @ spec_repeat s (Suc n)"

section \<open>The run as the specification words it\<close>

text \<open>The headers every request carries, and the two kinds of request.\<close>

definition fixed_headers :: "(string \<times> string) list" where
  "fixed_headers = [(''Content-Type'', ''application/json''),
                    (''x-apollo-operation-name'', ''IntrospectionQuery''),
                    (''apollo-require-preflight'', ''true'')]"

definition introspection_request :: "string \<Rightarrow> (string \<times> string) list \<Rightarrow> request" where
  "introspection_request u h =
     \<lparr>req_url = u, req_headers = h, req_query = introspection_query,
      req_operation_name = Some ''IntrospectionQuery''\<rparr>"

definition probe_request :: "string \<Rightarrow> (string \<times> string) list \<Rightarrow> string \<Rightarrow> request" where
  "probe_request u h q = \<lparr>req_url = u, req_headers = h, req_query = q, req_operation_name = None\<rparr>"

text \<open>The tester as \<^verbatim>\<open>main\<close> creates it, after its first line of output.\<close>

definition tester :: "string \<Rightarrow> state" where
  "tester u = init u (print (Testing_Endpoint u) start)"

text \<open>
  An introspection response has \<open>data.__schema\<close> when it is an object whose \<open>data\<close> is an
  object with a \<open>__schema\<close> key. It lacks it in the sense of the claim when it is an
  object with no \<open>data\<close> key, or with an object under \<open>data\<close> that has no \<open>__schema\<close> key.
\<close>

fun has_schema_path :: "json \<Rightarrow> bool" where
  "has_schema_path (JObj kvs) =
     (case map_of kvs ''data'' of Some (JObj d) \<Rightarrow> map_of d ''__schema'' \<noteq> None | _ \<Rightarrow> False)"
| "has_schema_path _ = False"

fun lacks_schema :: "json \<Rightarrow> bool" where
  "lacks_schema (JObj kvs) =
     (case map_of kvs ''data'' of
        None \<Rightarrow> True
      | Some (JObj d) \<Rightarrow> map_of d ''__schema'' = None
      | Some _ \<Rightarrow> False)"
| "lacks_schema _ = False"

text \<open>The \<open>types\<close> array of an introspection response, when \<open>data.__schema.types\<close> is one.\<close>

definition schema_types :: "json \<Rightarrow> json list option" where
  "schema_types result =
     (case py_getitem result ''data'' of
        Inr (JObj d) \<Rightarrow>
          (case map_of d ''__schema'' of
             Some schema \<Rightarrow>
               (case py_getitem schema ''types'' of Inr (JArr ts) \<Rightarrow> Some ts | _ \<Rightarrow> None)
           | None \<Rightarrow> None)
      | _ \<Rightarrow> None)"

text \<open>
  The three probes of a testable field, in the fixed order ALIAS, DIRECTIVE, DUPLICATE,
  and the probes of a list of fields, field after field.
\<close>

definition field_queries :: "env \<Rightarrow> testable_field \<Rightarrow> int \<Rightarrow> string list" where
  "field_queries e tf n =
     [alias_overloading_query (py_format e (field_name tf)) n,
      directive_overloading_query (py_format e (field_name tf)) n,
      field_duplication_query (py_format e (field_name tf)) n]"

definition planned_queries :: "env \<Rightarrow> testable_field list \<Rightarrow> int \<Rightarrow> string list" where
  "planned_queries e tfs n = concat (map (\<lambda>tf. field_queries e tf n) tfs)"

text \<open>
  The exception a probe ends with, if any, for an answer: \<^verbatim>\<open>json()\<close> raises one that
  \<^verbatim>\<open>_send_query\<close> does not catch, or the body parses to a value that is truthy and not an
  object, on which the check after the probe raises AttributeError. A transport failure
  and a body that is not JSON give none.
\<close>

fun json_abort :: "exn + json \<Rightarrow> exn option" where
  "json_abort (Inr v) = (if truthy v \<and> \<not> is_dict v then Some AttributeError else None)"
| "json_abort (Inl JSONDecodeError) = None"
| "json_abort (Inl (RequestException d)) = None"
| "json_abort (Inl x) = Some x"

fun abort_exn :: "post_outcome \<Rightarrow> exn option" where
  "abort_exn (Transport_Failure d) = None"
| "abort_exn (Response r) = json_abort (body_json r)"

definition aborting :: "post_outcome \<Rightarrow> bool" where
  "aborting a \<longleftrightarrow> abort_exn a \<noteq> None"

text \<open>None of the requests \<open>rs\<close>, posted as calls \<open>k\<close>, \<open>k + 1\<close>, and so on, gets such an answer.\<close>

fun none_aborting :: "env \<Rightarrow> request list \<Rightarrow> nat \<Rightarrow> bool" where
  "none_aborting e [] k = True"
| "none_aborting e (r # rs) k = (\<not> aborting (post e k r) \<and> none_aborting e rs (Suc k))"

text \<open>
  The requests of \<open>rs\<close> that get posted, as calls \<open>k\<close>, \<open>k + 1\<close>, and so on, when the run
  stops after the first such answer.
\<close>

fun posted_until_abort :: "env \<Rightarrow> request list \<Rightarrow> nat \<Rightarrow> request list" where
  "posted_until_abort e [] k = []"
| "posted_until_abort e (r # rs) k =
     r # (if aborting (post e k r) then [] else posted_until_abort e rs (Suc k))"

text \<open>
  How posting the requests \<open>rs\<close> as calls \<open>k\<close>, \<open>k + 1\<close>, and so on ends: with the exception
  of the first answer that has one, or normally.
\<close>

fun plan_result :: "env \<Rightarrow> request list \<Rightarrow> nat \<Rightarrow> exn + unit" where
  "plan_result e [] k = Inr ()"
| "plan_result e (r # rs) k =
     (case abort_exn (post e k r) of Some x \<Rightarrow> Inl x | None \<Rightarrow> plan_result e rs (Suc k))"

text \<open>The part the three test functions share: line 129 to the end of each.\<close>

definition probe :: "env \<Rightarrow> string \<Rightarrow> state \<Rightarrow> (exn + unit) \<times> state" where
  "probe e query st1 =
     (case send_query e query st1 of
        (Inl x, st2) \<Rightarrow> (Inl x, st2)
      | (Inr (result, response_time, error), st2) \<Rightarrow>
          (let st3 = print (Response_Time response_time) st2
           in case errors_detected error result of
                Inl x \<Rightarrow> (Inl x, st3)
              | Inr b \<Rightarrow> (Inr (), if b then print Errors_Detected st3 else st3)))"

section \<open>Mock servers\<close>

text \<open>
  The server of the specification's end-to-end property: it answers the introspection
  request with a fixed outcome and the \<open>k\<close>-th call, when it is a probe, with
  \<open>answer k\<close>. Its clock ticks once per reading. The schema of that property has one
  type, \<open>Query\<close>, with one field, \<open>users\<close>, of kind OBJECT; a second schema has a type
  entry without a name between two well-shaped ones.
\<close>

definition mock_schema :: json where
  "mock_schema =
     JObj [(''data'', JObj [(''__schema'', JObj [(''types'', JArr
       [JObj [(''name'', JStr ''Query''),
              (''fields'', JArr [JObj [(''name'', JStr ''users''),
                                       (''type'', JObj [(''kind'', JStr ''OBJECT''),
                                                        (''name'', JStr ''User''),
                                                        (''ofType'', JNull)])]])]])])])]"

definition mock_schema_text :: string where
  \<open>mock_schema_text = ''{"data":{"__schema":{"types":[{"name":"Query","fields":[{"name":"users","type":{"kind":"OBJECT","name":"User","ofType":null}}]}]}}}''\<close>

definition mock_schema_response :: post_outcome where
  "mock_schema_response = Response \<lparr>body_text = mock_schema_text, body_json = Inr mock_schema\<rparr>"

definition mock_users_response :: post_outcome where
  \<open>mock_users_response =
     Response \<lparr>body_text = ''{"data":{"users":[]}}'',
               body_json = Inr (JObj [(''data'', JObj [(''users'', JArr [])])])\<rparr>\<close>

definition nameless_schema :: json where
  "nameless_schema =
     JObj [(''data'', JObj [(''__schema'', JObj [(''types'', JArr
       [JObj [(''name'', JStr ''Query''),
              (''fields'', JArr [JObj [(''name'', JStr ''users''),
                                       (''type'', JObj [(''kind'', JStr ''LIST'')])]])],
        JObj [(''kind'', JStr ''OBJECT'')],
        JObj [(''name'', JStr ''Mutation''),
              (''fields'', JArr [JObj [(''name'', JStr ''addUser''),
                                       (''type'', JObj [(''kind'', JStr ''OBJECT'')])]])]])])])]"

definition nameless_schema_text :: string where
  \<open>nameless_schema_text = ''{"data":{"__schema":{"types":[{"name":"Query","fields":[{"name":"users","type":{"kind":"LIST"}}]},{"kind":"OBJECT"},{"name":"Mutation","fields":[{"name":"addUser","type":{"kind":"OBJECT"}}]}]}}}''\<close>

definition mock_server :: "post_outcome \<Rightarrow> (nat \<Rightarrow> post_outcome) \<Rightarrow> env" where
  "mock_server introspection answer =
     \<lparr>post = (\<lambda>k req. if req_operation_name req = Some ''IntrospectionQuery''
                       then introspection else answer k),
      clock = (\<lambda>k. real k), str_other = (\<lambda>v. []), py_int = (\<lambda>s. None)\<rparr>"

text \<open>
  A body that is valid JSON and that \<^verbatim>\<open>json()\<close> nevertheless refuses: an integer of 4301
  digits, on which the parser raises ValueError.
\<close>

definition huge_integer_response :: post_outcome where
  "huge_integer_response =
     Response \<lparr>body_text = replicate 4301 (CHR ''1''), body_json = Inl ValueError\<rparr>"

section \<open>The analyzer: what the code computes\<close>

lemma py_get_kind: "is_dict v \<Longrightarrow> \<exists>k. py_get v ''kind'' JNull = Inr k \<and> (k \<in> set [JStr ''OBJECT'', JStr ''LIST''] \<longleftrightarrow> kind_is_object_or_list v)"
  by (cases v) (auto split: option.splits)

lemma not_truthy_kind: "\<not> truthy v \<Longrightarrow> \<not> kind_is_object_or_list v"
  by (cases v) auto

lemma is_object_char:
  "is_object ft = (if type_ref_ok ft then Inr (spec_testable ft) else Inl AttributeError)"
proof (cases ft)
  case (JObj kvs)
  show ?thesis
  proof (cases "map_of kvs ''ofType''")
    case None
    with JObj show ?thesis by (auto simp: is_object_def split: option.splits)
  next
    case (Some ot)
    show ?thesis
    proof (cases "truthy ot")
      case False
      with JObj Some not_truthy_kind[OF False] show ?thesis
        by (auto simp: is_object_def split: option.splits)
    next
      case True
      with JObj Some show ?thesis
        by (cases ot) (auto simp: is_object_def split: option.splits)
    qed
  qed
qed (simp_all add: is_object_def)

lemma has_key_getitem: "has_key key v \<Longrightarrow> \<exists>x. py_getitem v key = Inr x"
  by (cases v) auto

lemma getitem_has_key: "py_getitem v key = Inr x \<Longrightarrow> has_key key v"
  by (cases v) (auto split: option.splits)

lemma analyze_field_ok:
  assumes "has_key ''name'' type_info" and "field_ok field"
  shows "analyze_field type_info field tfs =
           (Inr (), tfs @ (if field_testable field then [entry type_info field] else []))"
proof -
  from assms(2) obtain kvs where f: "field = JObj kvs"
    by (cases field) (auto simp: field_ok_def)
  from assms(1) obtain tn where tn: "py_getitem type_info ''name'' = Inr tn"
    using has_key_getitem by blast
  from assms(2) have ok: "type_ref_ok (field_type_ref field)"
    and nm: "field_testable field \<Longrightarrow> has_key ''name'' field"
    by (auto simp: field_ok_def)
  have get: "py_get field ''type'' (JObj []) = Inr (field_type_ref field)"
    using f by (auto simp: field_type_ref_def split: option.splits)
  show ?thesis
  proof (cases "field_testable field")
    case True
    with nm obtain fn where fn: "py_getitem field ''name'' = Inr fn"
      using has_key_getitem by blast
    from True ok get tn fn show ?thesis
      by (simp add: analyze_field_def is_object_char field_testable_def entry_def name_of_def)
  next
    case False
    with ok get show ?thesis
      by (simp add: analyze_field_def is_object_char field_testable_def)
  qed
qed

lemma analyze_field_bad:
  assumes "\<not> field_ok field"
  shows "isl (fst (analyze_field type_info field tfs)) \<and> snd (analyze_field type_info field tfs) = tfs"
proof (cases field)
  case (JObj kvs)
  have get: "py_get field ''type'' (JObj []) = Inr (field_type_ref field)"
    using JObj by (auto simp: field_type_ref_def split: option.splits)
  show ?thesis
  proof (cases "type_ref_ok (field_type_ref field)")
    case False
    with get show ?thesis by (simp add: analyze_field_def is_object_char)
  next
    case True
    with assms JObj have t: "field_testable field" and nk: "\<not> has_key ''name'' field"
      by (auto simp: field_ok_def)
    from nk JObj have "py_getitem field ''name'' = Inl (KeyError ''name'')"
      by (auto split: option.splits)
    with True t get show ?thesis
      by (auto simp: analyze_field_def is_object_char field_testable_def split: sum.splits)
  qed
qed (simp_all add: analyze_field_def)

lemma analyze_fields_ok:
  "has_key ''name'' type_info \<Longrightarrow> list_all field_ok fs \<Longrightarrow>
   analyze_fields type_info fs tfs =
     (Inr (), tfs @ map (entry type_info) (filter field_testable fs))"
  by (induction fs arbitrary: tfs) (simp_all add: analyze_field_ok)

lemma analyze_fields_bad:
  "has_key ''name'' type_info \<Longrightarrow> \<not> list_all field_ok fs \<Longrightarrow>
   isl (fst (analyze_fields type_info fs tfs))"
proof (induction fs arbitrary: tfs)
  case Nil
  then show ?case by simp
next
  case (Cons f fs)
  show ?case
  proof (cases "field_ok f")
    case True
    with Cons show ?thesis by (simp add: analyze_field_ok)
  next
    case False
    from analyze_field_bad[OF False, of type_info tfs] show ?thesis
      by (cases "analyze_field type_info f tfs") (auto simp: isl_def)
  qed
qed

lemma analyze_type_internal:
  "is_internal type_info \<Longrightarrow> analyze_type type_info tfs = (Inr (), tfs)"
  by (auto simp: is_internal_def analyze_type_def split: sum.splits json.splits)

lemma analyze_type_ok:
  assumes "type_ok type_info"
  shows "analyze_type type_info tfs = (Inr (), tfs @ spec_type_output type_info)"
proof (cases "is_internal type_info")
  case True
  then show ?thesis by (simp add: analyze_type_internal spec_type_output_def)
next
  case False
  from assms obtain s where nm: "py_getitem type_info ''name'' = Inr (JStr s)"
    by (auto simp: type_ok_def split: sum.splits json.splits)
  with False have np: "\<not> prefix ''__'' s" by (simp add: is_internal_def)
  from nm have hk: "has_key ''name'' type_info" by (rule getitem_has_key)
  from assms nm np obtain fs where fs: "py_get type_info ''fields'' JNull = Inr fs" and fok: "fields_ok fs"
    by (auto simp: type_ok_def split: sum.splits)
  show ?thesis
  proof (cases "truthy fs")
    case False
    then have "fields_of type_info = []"
      using fs by (cases fs) (auto simp: fields_of_def)
    with False nm np fs \<open>\<not> is_internal type_info\<close> show ?thesis
      by (simp add: analyze_type_def spec_type_output_def)
  next
    case True
    with fok obtain l where l: "fs = JArr l" and lok: "list_all field_ok l"
      by (auto simp: fields_ok_def split: json.splits)
    from fs l True have gi: "py_getitem type_info ''fields'' = Inr (JArr l)"
      by (cases type_info) (auto split: option.splits)
    from fs l have fo: "fields_of type_info = l" by (simp add: fields_of_def)
    from True nm np fs gi l fo \<open>\<not> is_internal type_info\<close> show ?thesis
      by (simp add: analyze_type_def spec_type_output_def analyze_fields_ok[OF hk lok])
  qed
qed

lemma iter_not_list_bad:
  assumes "truthy fs" and "\<forall>l. fs \<noteq> JArr l" and "py_iter fs = Inr l"
  shows "\<not> list_all field_ok l"
  using assms by (cases fs; cases l) (auto simp: field_ok_def)

lemma analyze_type_bad:
  assumes "\<not> type_ok type_info"
  shows "isl (fst (analyze_type type_info tfs))"
proof (cases "py_getitem type_info ''name''")
  case (Inl e)
  then show ?thesis by (simp add: analyze_type_def)
next
  case (Inr name)
  then have hk: "has_key ''name'' type_info" by (rule getitem_has_key)
  then obtain kvs where ti: "type_info = JObj kvs" by (cases type_info) auto
  show ?thesis
  proof (cases name)
    case (JStr s)
    with assms Inr have np: "\<not> prefix ''__'' s" by (auto simp: type_ok_def)
    obtain fs where fs: "py_get type_info ''fields'' JNull = Inr fs"
      using ti by (cases "map_of kvs ''fields''") auto
    with assms Inr JStr np have nok: "\<not> fields_ok fs" by (auto simp: type_ok_def)
    then have tr: "truthy fs" by (simp add: fields_ok_def)
    with fs ti have gi: "py_getitem type_info ''fields'' = Inr fs"
      by (auto split: option.splits)
    show ?thesis
    proof (cases "py_iter fs")
      case (Inl e)
      with Inr JStr np fs tr gi show ?thesis by (simp add: analyze_type_def)
    next
      case (Inr l)
      have "\<not> list_all field_ok l"
      proof (cases "\<exists>l'. fs = JArr l'")
        case True
        with nok tr Inr show ?thesis by (auto simp: fields_ok_def)
      next
        case False
        with tr Inr show ?thesis using iter_not_list_bad by blast
      qed
      with \<open>py_getitem type_info ''name'' = Inr name\<close> JStr np fs tr gi Inr show ?thesis
        by (simp add: analyze_type_def analyze_fields_bad[OF hk])
    qed
  qed (use Inr in \<open>simp_all add: analyze_type_def\<close>)
qed

lemma analyze_types_ok:
  "list_all type_ok types \<Longrightarrow> analyze_types types tfs = (Inr (), tfs @ spec_analyze types)"
  by (induction types arbitrary: tfs) (simp_all add: analyze_type_ok spec_analyze_def)

lemma analyze_types_bad:
  "\<not> list_all type_ok types \<Longrightarrow> isl (fst (analyze_types types tfs))"
proof (induction types arbitrary: tfs)
  case Nil
  then show ?case by simp
next
  case (Cons t ts)
  show ?case
  proof (cases "type_ok t")
    case True
    with Cons show ?thesis by (simp add: analyze_type_ok)
  next
    case False
    from analyze_type_bad[OF False, of tfs] show ?thesis
      by (cases "analyze_type t tfs") (auto simp: isl_def)
  qed
qed

lemma analyze_types_returns_iff:
  "fst (analyze_types types tfs) = Inr () \<longleftrightarrow> list_all type_ok types"
  using analyze_types_ok[of types tfs] analyze_types_bad[of types tfs]
  by (cases "list_all type_ok types") (auto simp: isl_def)

lemma analyze_field_step:
  "analyze_field type_info field tfs = (r, tfs') \<Longrightarrow>
   tfs' = (if isl r then tfs
           else tfs @ (if field_testable field then [entry type_info field] else []))"
proof (cases "field_ok field")
  case False
  assume "analyze_field type_info field tfs = (r, tfs')"
  with analyze_field_bad[OF False, of type_info tfs] show ?thesis by simp
next
  case True
  assume af: "analyze_field type_info field tfs = (r, tfs')"
  show ?thesis
  proof (cases "has_key ''name'' type_info")
    case True
    with \<open>field_ok field\<close> af show ?thesis by (auto simp: analyze_field_ok)
  next
    case False
    then obtain e where e: "py_getitem type_info ''name'' = Inl e"
      by (cases "py_getitem type_info ''name''") (auto dest: getitem_has_key)
    from True obtain kvs where f: "field = JObj kvs"
      by (cases field) (auto simp: field_ok_def)
    have get: "py_get field ''type'' (JObj []) = Inr (field_type_ref field)"
      using f by (auto simp: field_type_ref_def split: option.splits)
    from True have ok: "type_ref_ok (field_type_ref field)" by (simp add: field_ok_def)
    from af e get ok show ?thesis
      by (auto simp: analyze_field_def is_object_char field_testable_def split: if_splits)
  qed
qed

lemma analyze_fields_prefix:
  "\<exists>new. snd (analyze_fields type_info fs tfs) = tfs @ new \<and>
         prefix new (map (entry type_info) (filter field_testable fs))"
proof (induction fs arbitrary: tfs)
  case Nil
  then show ?case by simp
next
  case (Cons f fs)
  obtain r tfs' where af: "analyze_field type_info f tfs = (r, tfs')"
    by (cases "analyze_field type_info f tfs")
  note st = analyze_field_step[OF af]
  show ?case
  proof (cases r)
    case (Inl e)
    with af st show ?thesis by simp
  next
    case (Inr u)
    from Cons.IH[of tfs'] obtain new where
      n: "snd (analyze_fields type_info fs tfs') = tfs' @ new"
      and p: "prefix new (map (entry type_info) (filter field_testable fs))" by blast
    from af Inr st n p show ?thesis by auto
  qed
qed

lemma analyze_fields_not_dicts:
  assumes "\<forall>f \<in> set fs. \<not> is_dict f"
  shows "snd (analyze_fields type_info fs tfs) = tfs"
proof -
  have "filter field_testable fs = []"
    using assms
    by (auto simp: filter_empty_conv field_testable_def field_type_ref_def elim!: is_dict.elims(3))
  with analyze_fields_prefix[of type_info fs tfs] show ?thesis by auto
qed

lemma analyze_type_prefix:
  "\<exists>new. snd (analyze_type type_info tfs) = tfs @ new \<and> prefix new (spec_type_output type_info)"
proof (cases "type_ok type_info")
  case True
  then show ?thesis by (simp add: analyze_type_ok)
next
  case False
  have "snd (analyze_type type_info tfs) = tfs \<or>
        (\<not> is_internal type_info \<and>
         snd (analyze_type type_info tfs) = snd (analyze_fields type_info (fields_of type_info) tfs))"
  proof (cases type_info)
    case (JObj kvs)
    show ?thesis
    proof (cases "map_of kvs ''name''")
      case None
      with JObj show ?thesis by (simp add: analyze_type_def)
    next
      case (Some name)
      show ?thesis
      proof (cases name)
        case (JStr s)
        show ?thesis
        proof (cases "map_of kvs ''fields''")
          case None
          with JObj Some JStr show ?thesis by (simp add: analyze_type_def)
        next
          case (Some fs)
          show ?thesis
          proof (cases fs)
            case (JArr l)
            with JObj \<open>map_of kvs ''name'' = Some name\<close> JStr Some show ?thesis
              by (simp add: analyze_type_def is_internal_def fields_of_def)
          next
            case (JObj kvs')
            have "snd (analyze_fields type_info (map (\<lambda>kv. JStr (fst kv)) kvs') tfs) = tfs"
              by (rule analyze_fields_not_dicts) auto
            with JObj \<open>type_info = JObj kvs\<close> \<open>map_of kvs ''name'' = Some name\<close> JStr Some
            show ?thesis by (simp add: analyze_type_def)
          next
            case (JStr s')
            have "snd (analyze_fields type_info (map (\<lambda>c. JStr [c]) s') tfs) = tfs"
              by (rule analyze_fields_not_dicts) auto
            with JStr \<open>type_info = JObj kvs\<close> \<open>map_of kvs ''name'' = Some name\<close> \<open>name = JStr s\<close> Some
            show ?thesis by (simp add: analyze_type_def)
          qed (use JObj \<open>map_of kvs ''name'' = Some name\<close> JStr Some in \<open>simp_all add: analyze_type_def\<close>)
        qed
      qed (use JObj Some in \<open>simp_all add: analyze_type_def\<close>)
    qed
  qed (simp_all add: analyze_type_def)
  then show ?thesis
  proof
    assume "snd (analyze_type type_info tfs) = tfs"
    then show ?thesis by simp
  next
    assume a: "\<not> is_internal type_info \<and>
         snd (analyze_type type_info tfs) = snd (analyze_fields type_info (fields_of type_info) tfs)"
    with analyze_fields_prefix[of type_info "fields_of type_info" tfs]
    show ?thesis by (simp add: spec_type_output_def)
  qed
qed

lemma analyze_types_prefix:
  "\<exists>new. snd (analyze_types types tfs) = tfs @ new \<and> prefix new (spec_analyze types)"
proof (induction types arbitrary: tfs)
  case Nil
  then show ?case by simp
next
  case (Cons t ts)
  show ?case
  proof (cases "type_ok t")
    case True
    from Cons.IH[of "tfs @ spec_type_output t"] obtain new where
      "snd (analyze_types ts (tfs @ spec_type_output t)) = (tfs @ spec_type_output t) @ new"
      "prefix new (spec_analyze ts)" by blast
    with True show ?thesis by (simp add: analyze_type_ok spec_analyze_def)
  next
    case False
    from analyze_type_bad[OF False, of tfs] obtain e tfs' where
      r: "analyze_type t tfs = (Inl e, tfs')"
      by (cases "analyze_type t tfs") (auto simp: isl_def)
    from analyze_type_prefix[of t tfs] r obtain new where
      "tfs' = tfs @ new" "prefix new (spec_type_output t)" by auto
    with r show ?thesis by (auto simp: spec_analyze_def intro: prefix_order.trans)
  qed
qed

lemma name_of_not_internal: "\<not> is_internal t \<Longrightarrow> \<not> internal_name (name_of t)"
  by (cases "py_getitem t ''name''"; cases "name_of t")
     (auto simp: is_internal_def name_of_def)

lemma spec_analyze_not_internal:
  "tf \<in> set (spec_analyze types) \<Longrightarrow> \<not> internal_name (type_name tf)"
  by (auto simp: spec_analyze_def spec_type_output_def entry_def name_of_not_internal
           split: if_splits)

lemma analyze_types_skip_internal:
  "analyze_types (filter (\<lambda>t. \<not> is_internal t) types) tfs = analyze_types types tfs"
  by (induction types arbitrary: tfs)
     (auto simp: analyze_type_internal split: prod.splits sum.splits)

lemma count_spec_analyze:
  "length (filter P (spec_analyze types)) =
     sum_list (map (\<lambda>t. length (filter P (map (entry t) (filter field_testable (fields_of t)))))
                   (filter (\<lambda>t. \<not> is_internal t) types))"
  by (induction types) (simp_all add: spec_analyze_def spec_type_output_def)

subsection \<open>Claims about the analyzer\<close>

lemma spec_analyze_expanded:
  "spec_analyze types =
     concat (map (\<lambda>t. map (entry t) (filter (\<lambda>f. spec_testable (field_type_ref f)) (fields_of t)))
                 (filter (\<lambda>t. \<not> is_internal t) types))"
proof -
  have "(\<lambda>f. spec_testable (field_type_ref f)) = field_testable"
    by (rule ext) (simp add: field_testable_def)
  then show ?thesis
    by (induction types) (simp_all add: spec_analyze_def spec_type_output_def)
qed

text \<open>
  C1. The analyzer classifies a field as testable if and only if the field's type has
  kind OBJECT or LIST, or has an \<open>ofType\<close> present whose kind is OBJECT or LIST. Whenever
  the code's test \<open>is_object\<close> returns, it returns the specification's predicate, and it
  returns on every well-shaped TypeRef; the loop body appends the field's entry exactly
  when the predicate holds; and what lies under \<open>ofType.ofType\<close> never changes the answer.
  Over a whole array: the loop over the fields of a type appends the entries of exactly
  the fields with the predicate, and on every well-shaped types array the analyzer
  returns, having appended the entry of every field of every type that is not internal
  for which the predicate holds, and of no other field. On an array with an ill-shaped
  entry the analysis stops there, and what it has appended is the beginning of that list.
\<close>

theorem field_classified_testable_iff:
  "(is_object field_type = Inr b \<longrightarrow> b = spec_testable field_type) \<and>
   (type_ref_ok field_type \<longrightarrow> is_object field_type = Inr (spec_testable field_type)) \<and>
   (analyze_field type_info field tfs = (Inr (), tfs') \<longrightarrow>
      tfs' = (if spec_testable (field_type_ref field) then tfs @ [entry type_info field] else tfs)) \<and>
   is_object (JObj ((''ofType'', JObj ((''ofType'', deep) # of_type)) # type_ref)) =
   is_object (JObj ((''ofType'', JObj ((''ofType'', deep') # of_type)) # type_ref)) \<and>
   (has_key ''name'' type_info \<and> list_all field_ok fs \<longrightarrow>
      analyze_fields type_info fs tfs =
        (Inr (), tfs @ map (entry type_info) (filter (\<lambda>f. spec_testable (field_type_ref f)) fs))) \<and>
   (list_all type_ok types \<longrightarrow>
      analyze_types types tfs =
        (Inr (), tfs @
           concat (map (\<lambda>t. map (entry t)
                               (filter (\<lambda>f. spec_testable (field_type_ref f)) (fields_of t)))
                       (filter (\<lambda>t. \<not> is_internal t) types)))) \<and>
   (\<exists>new. snd (analyze_types types tfs) = tfs @ new \<and>
      prefix new
        (concat (map (\<lambda>t. map (entry t)
                            (filter (\<lambda>f. spec_testable (field_type_ref f)) (fields_of t)))
                    (filter (\<lambda>t. \<not> is_internal t) types))))"
proof (intro conjI impI)
  show "is_object field_type = Inr b \<Longrightarrow> b = spec_testable field_type"
    by (simp add: is_object_char split: if_splits)
  show "type_ref_ok field_type \<Longrightarrow> is_object field_type = Inr (spec_testable field_type)"
    by (simp add: is_object_char)
  show "analyze_field type_info field tfs = (Inr (), tfs') \<Longrightarrow>
      tfs' = (if spec_testable (field_type_ref field) then tfs @ [entry type_info field] else tfs)"
    using analyze_field_step[of type_info field tfs "Inr ()" tfs']
    by (simp add: field_testable_def)
  show "is_object (JObj ((''ofType'', JObj ((''ofType'', deep) # of_type)) # type_ref)) =
        is_object (JObj ((''ofType'', JObj ((''ofType'', deep') # of_type)) # type_ref))"
    by (simp add: is_object_char)
  have ft: "(\<lambda>f. spec_testable (field_type_ref f)) = field_testable"
    by (rule ext) (simp add: field_testable_def)
  show "analyze_fields type_info fs tfs =
        (Inr (), tfs @ map (entry type_info) (filter (\<lambda>f. spec_testable (field_type_ref f)) fs))"
    if "has_key ''name'' type_info \<and> list_all field_ok fs"
    using that by (simp add: analyze_fields_ok ft)
  show "analyze_types types tfs =
        (Inr (), tfs @
           concat (map (\<lambda>t. map (entry t)
                               (filter (\<lambda>f. spec_testable (field_type_ref f)) (fields_of t)))
                       (filter (\<lambda>t. \<not> is_internal t) types)))"
    if "list_all type_ok types"
    using analyze_types_ok[OF that, of tfs] by (simp only: spec_analyze_expanded)
  show "\<exists>new. snd (analyze_types types tfs) = tfs @ new \<and>
      prefix new
        (concat (map (\<lambda>t. map (entry t)
                            (filter (\<lambda>f. spec_testable (field_type_ref f)) (fields_of t)))
                    (filter (\<lambda>t. \<not> is_internal t) types)))"
    using analyze_types_prefix[of types tfs] by (simp only: spec_analyze_expanded)
qed

theorem field_classified_testable_iff_witness:
  "is_object (JObj [(''kind'', JStr ''OBJECT''), (''name'', JStr ''User''), (''ofType'', JNull)]) = Inr True \<and>
   is_object (JObj [(''kind'', JStr ''SCALAR''), (''name'', JStr ''Int'')]) = Inr False \<and>
   type_ref_ok (JObj [(''kind'', JStr ''NON_NULL''), (''ofType'', JObj [(''kind'', JStr ''LIST'')])]) \<and>
   is_object (JObj [(''kind'', JStr ''NON_NULL''), (''ofType'', JObj [(''kind'', JStr ''LIST'')])]) = Inr True \<and>
   analyze_field (JObj [(''name'', JStr ''Query'')])
     (JObj [(''name'', JStr ''users''), (''type'', JObj [(''kind'', JStr ''OBJECT'')])]) []
     = (Inr (), [\<lparr>type_name = JStr ''Query'', field_name = JStr ''users''\<rparr>]) \<and>
   is_object (JObj [(''ofType'', JObj [(''ofType'', JObj [(''kind'', JStr ''OBJECT'')]),
                                       (''kind'', JStr ''NON_NULL'')]),
                    (''kind'', JStr ''NON_NULL'')]) = Inr False \<and>
   list_all type_ok
     [JObj [(''name'', JStr ''__Type''),
            (''fields'', JArr [JObj [(''name'', JStr ''fields''),
                                     (''type'', JObj [(''kind'', JStr ''LIST'')])]])],
      JObj [(''name'', JStr ''Query''),
            (''fields'', JArr [JObj [(''name'', JStr ''version''),
                                     (''type'', JObj [(''kind'', JStr ''SCALAR'')])],
                               JObj [(''name'', JStr ''users''),
                                     (''type'', JObj [(''kind'', JStr ''NON_NULL''),
                                                      (''ofType'', JObj [(''kind'', JStr ''LIST'')])])],
                               JObj [(''name'', JStr ''me''),
                                     (''type'', JObj [(''kind'', JStr ''OBJECT'')])]])]] \<and>
   analyze_types
     [JObj [(''name'', JStr ''__Type''),
            (''fields'', JArr [JObj [(''name'', JStr ''fields''),
                                     (''type'', JObj [(''kind'', JStr ''LIST'')])]])],
      JObj [(''name'', JStr ''Query''),
            (''fields'', JArr [JObj [(''name'', JStr ''version''),
                                     (''type'', JObj [(''kind'', JStr ''SCALAR'')])],
                               JObj [(''name'', JStr ''users''),
                                     (''type'', JObj [(''kind'', JStr ''NON_NULL''),
                                                      (''ofType'', JObj [(''kind'', JStr ''LIST'')])])],
                               JObj [(''name'', JStr ''me''),
                                     (''type'', JObj [(''kind'', JStr ''OBJECT'')])]])]] []
     = (Inr (), [\<lparr>type_name = JStr ''Query'', field_name = JStr ''users''\<rparr>,
                 \<lparr>type_name = JStr ''Query'', field_name = JStr ''me''\<rparr>])"
proof -
  let ?types = "[JObj [(''name'', JStr ''__Type''),
            (''fields'', JArr [JObj [(''name'', JStr ''fields''),
                                     (''type'', JObj [(''kind'', JStr ''LIST'')])]])],
      JObj [(''name'', JStr ''Query''),
            (''fields'', JArr [JObj [(''name'', JStr ''version''),
                                     (''type'', JObj [(''kind'', JStr ''SCALAR'')])],
                               JObj [(''name'', JStr ''users''),
                                     (''type'', JObj [(''kind'', JStr ''NON_NULL''),
                                                      (''ofType'', JObj [(''kind'', JStr ''LIST'')])])],
                               JObj [(''name'', JStr ''me''),
                                     (''type'', JObj [(''kind'', JStr ''OBJECT'')])]])]]"
  have ok: "list_all type_ok ?types"
    by (simp add: type_ok_def fields_ok_def field_ok_def field_type_ref_def field_testable_def)
  have out: "concat (map (\<lambda>t. map (entry t)
                               (filter (\<lambda>f. spec_testable (field_type_ref f)) (fields_of t)))
                       (filter (\<lambda>t. \<not> is_internal t) ?types)) =
             [\<lparr>type_name = JStr ''Query'', field_name = JStr ''users''\<rparr>,
              \<lparr>type_name = JStr ''Query'', field_name = JStr ''me''\<rparr>]"
    by (simp add: is_internal_def fields_of_def field_type_ref_def entry_def name_of_def)
  note t = field_classified_testable_iff
    [where field_type = "JObj [(''kind'', JStr ''NON_NULL''), (''ofType'', JObj [(''kind'', JStr ''LIST'')])]"
       and b = True
       and type_info = "JObj [(''name'', JStr ''Query'')]"
       and field = "JObj [(''name'', JStr ''users''), (''type'', JObj [(''kind'', JStr ''OBJECT'')])]"
       and tfs = "[]"
       and tfs' = "[\<lparr>type_name = JStr ''Query'', field_name = JStr ''users''\<rparr>]"
       and deep = "JObj [(''kind'', JStr ''OBJECT'')]"
       and of_type = "[(''kind'', JStr ''NON_NULL'')]"
       and type_ref = "[(''kind'', JStr ''NON_NULL'')]" and deep' = JNull
       and fs = "[]" and types = ?types]
  from t ok out have "analyze_types ?types [] =
      (Inr (), [\<lparr>type_name = JStr ''Query'', field_name = JStr ''users''\<rparr>,
                \<lparr>type_name = JStr ''Query'', field_name = JStr ''me''\<rparr>])"
    by simp
  with ok show ?thesis by (simp add: is_object_def analyze_field_def)
qed

text \<open>
  C2, as the claim states it, fails: a type entry without a \<open>name\<close> key makes the
  analysis raise KeyError.
\<close>

theorem missing_name_raises_counterexample:
  "analyze_types [JObj [(''kind'', JStr ''OBJECT''), (''fields'', JArr [])]] []
     = (Inl (KeyError ''name''), [])"
  by (simp add: analyze_type_def)

text \<open>
  C2, amended. The analysis raises nothing exactly on the arrays whose entries are all
  well shaped (\<open>type_ok\<close>). A missing, null or empty \<open>fields\<close> is no fields; a missing
  \<open>ofType\<close> is an empty object; a field without a \<open>type\<close> key is not testable and raises
  nothing. A type entry without a \<open>name\<close> key raises KeyError, and so does a testable
  field without one.
\<close>

theorem analysis_raises_nothing_iff_well_shaped:
  "(fst (analyze_types types tfs) = Inr ()) = list_all type_ok types \<and>
   (map_of kvs ''name'' = Some (JStr s) \<and>
    map_of kvs ''fields'' \<in> {None, Some JNull, Some (JArr [])} \<longrightarrow>
      analyze_type (JObj kvs) tfs = (Inr (), tfs)) \<and>
   (map_of kvs ''ofType'' = None \<longrightarrow>
      is_object (JObj kvs) = is_object (JObj ((''ofType'', JObj []) # kvs))) \<and>
   (map_of kvs ''type'' = None \<longrightarrow> analyze_field type_info (JObj kvs) tfs = (Inr (), tfs)) \<and>
   (map_of kvs ''name'' = None \<longrightarrow>
      analyze_type (JObj kvs) tfs = (Inl (KeyError ''name''), tfs)) \<and>
   (has_key ''name'' type_info \<and> map_of kvs ''name'' = None \<and>
    is_object (field_type_ref (JObj kvs)) = Inr True \<longrightarrow>
      analyze_field type_info (JObj kvs) tfs = (Inl (KeyError ''name''), tfs))"
proof (intro conjI impI)
  show "(fst (analyze_types types tfs) = Inr ()) = list_all type_ok types"
    by (rule analyze_types_returns_iff)
  show "analyze_type (JObj kvs) tfs = (Inr (), tfs)"
    if "map_of kvs ''name'' = Some (JStr s) \<and>
        map_of kvs ''fields'' \<in> {None, Some JNull, Some (JArr [])}"
    using that by (auto simp: analyze_type_def)
  show "is_object (JObj kvs) = is_object (JObj ((''ofType'', JObj []) # kvs))"
    if "map_of kvs ''ofType'' = None"
    using that by (auto simp: is_object_def split: option.splits)
  show "analyze_field type_info (JObj kvs) tfs = (Inr (), tfs)" if "map_of kvs ''type'' = None"
    using that by (simp add: analyze_field_def is_object_def)
  show "analyze_type (JObj kvs) tfs = (Inl (KeyError ''name''), tfs)"
    if "map_of kvs ''name'' = None"
    using that by (simp add: analyze_type_def)
  show "analyze_field type_info (JObj kvs) tfs = (Inl (KeyError ''name''), tfs)"
    if h: "has_key ''name'' type_info \<and> map_of kvs ''name'' = None \<and>
        is_object (field_type_ref (JObj kvs)) = Inr True"
  proof -
    from h obtain tn where "py_getitem type_info ''name'' = Inr tn"
      using has_key_getitem by blast
    moreover have "py_get (JObj kvs) ''type'' (JObj []) = Inr (field_type_ref (JObj kvs))"
      by (auto simp: field_type_ref_def split: option.splits)
    ultimately show ?thesis using h by (simp add: analyze_field_def)
  qed
qed

theorem analysis_raises_nothing_iff_well_shaped_witness:
  "list_all type_ok
     [JObj [(''name'', JStr ''Query''),
            (''fields'', JArr [JObj [(''name'', JStr ''users''),
                                     (''type'', JObj [(''kind'', JStr ''LIST'')])],
                               JObj [(''name'', JStr ''version'')]])],
      JObj [(''name'', JStr ''Int'')]] \<and>
   analyze_types
     [JObj [(''name'', JStr ''Query''),
            (''fields'', JArr [JObj [(''name'', JStr ''users''),
                                     (''type'', JObj [(''kind'', JStr ''LIST'')])],
                               JObj [(''name'', JStr ''version'')]])],
      JObj [(''name'', JStr ''Int'')]] []
     = (Inr (), [\<lparr>type_name = JStr ''Query'', field_name = JStr ''users''\<rparr>]) \<and>
   analyze_type (JObj [(''name'', JStr ''Int'')]) [] = (Inr (), []) \<and>
   analyze_field (JObj [(''name'', JStr ''Query'')]) (JObj [(''name'', JStr ''version'')]) []
     = (Inr (), []) \<and>
   analyze_type (JObj [(''fields'', JArr [])]) [] = (Inl (KeyError ''name''), [])"
  using analysis_raises_nothing_iff_well_shaped
    [of "[JObj [(''name'', JStr ''Query''),
            (''fields'', JArr [JObj [(''name'', JStr ''users''),
                                     (''type'', JObj [(''kind'', JStr ''LIST'')])],
                               JObj [(''name'', JStr ''version'')]])],
          JObj [(''name'', JStr ''Int'')]]" "[]" "[(''name'', JStr ''Int'')]" "''Int''"
        "JObj [(''name'', JStr ''Query'')]"]
    analysis_raises_nothing_iff_well_shaped
    [of "[]" "[]" "[(''name'', JStr ''version'')]" "''x''" "JObj [(''name'', JStr ''Query'')]"]
    analysis_raises_nothing_iff_well_shaped
    [of "[]" "[]" "[(''fields'', JArr [])]" "''x''" "JObj [(''name'', JStr ''Query'')]"]
  by (simp add: analyze_type_def analyze_field_def is_object_def type_ok_def fields_ok_def
      field_ok_def field_type_ref_def field_testable_def)

text \<open>
  C3. No entry the analyzer appends carries the name of an internal type (a name that
  starts with \<open>__\<close>), whatever the array holds and even when the analysis stops on an
  exception; and the analysis of an array is the analysis of the array with its internal
  types removed.
\<close>

theorem internal_types_excluded:
  "(\<exists>new. snd (analyze_types types tfs) = tfs @ new \<and>
          (\<forall>tf \<in> set new. \<not> internal_name (type_name tf))) \<and>
   analyze_types (filter (\<lambda>t. \<not> is_internal t) types) tfs = analyze_types types tfs"
proof
  from analyze_types_prefix[of types tfs] obtain new where
    n: "snd (analyze_types types tfs) = tfs @ new" and p: "prefix new (spec_analyze types)"
    by blast
  from p have "set new \<subseteq> set (spec_analyze types)" by (rule set_mono_prefix)
  then have "\<forall>tf \<in> set new. \<not> internal_name (type_name tf)"
    using spec_analyze_not_internal by blast
  with n show "\<exists>new. snd (analyze_types types tfs) = tfs @ new \<and>
          (\<forall>tf \<in> set new. \<not> internal_name (type_name tf))" by blast
  show "analyze_types (filter (\<lambda>t. \<not> is_internal t) types) tfs = analyze_types types tfs"
    by (rule analyze_types_skip_internal)
qed

theorem internal_types_excluded_witness:
  "analyze_types
     [JObj [(''name'', JStr ''__Schema''),
            (''fields'', JArr [JObj [(''name'', JStr ''types''),
                                     (''type'', JObj [(''kind'', JStr ''LIST'')])]])],
      JObj [(''name'', JStr ''Query''),
            (''fields'', JArr [JObj [(''name'', JStr ''users''),
                                     (''type'', JObj [(''kind'', JStr ''LIST'')])]])]] []
     = (Inr (), [\<lparr>type_name = JStr ''Query'', field_name = JStr ''users''\<rparr>]) \<and>
   \<not> internal_name (JStr ''Query'') \<and> internal_name (JStr ''__Schema'')"
  using internal_types_excluded
    [of "[JObj [(''name'', JStr ''__Schema''),
            (''fields'', JArr [JObj [(''name'', JStr ''types''),
                                     (''type'', JObj [(''kind'', JStr ''LIST'')])]])],
      JObj [(''name'', JStr ''Query''),
            (''fields'', JArr [JObj [(''name'', JStr ''users''),
                                     (''type'', JObj [(''kind'', JStr ''LIST'')])]])]]" "[]"]
  by (simp add: analyze_type_def analyze_field_def is_object_def is_internal_def)

text \<open>
  C4. The entries the analyzer appends are always an initial part of the
  specification's list, which takes the types in the order of the array and, within a
  type, the testable fields in their order; when the analysis returns, they are the whole
  list. Nothing is removed: for every field name, the list holds as many entries with
  that name as there are testable fields with it in the types that are not internal.
\<close>

theorem testable_fields_in_encounter_order:
  "(\<exists>new. snd (analyze_types types tfs) = tfs @ new \<and> prefix new (spec_analyze types)) \<and>
   (fst (analyze_types types tfs) = Inr () \<longrightarrow>
      snd (analyze_types types tfs) = tfs @ spec_analyze types) \<and>
   length (filter (\<lambda>tf. field_name tf = n) (spec_analyze types)) =
     sum_list (map (\<lambda>t. length (filter (\<lambda>f. field_testable f \<and> name_of f = n) (fields_of t)))
                   (filter (\<lambda>t. \<not> is_internal t) types))"
proof (intro conjI impI)
  show "\<exists>new. snd (analyze_types types tfs) = tfs @ new \<and> prefix new (spec_analyze types)"
    by (rule analyze_types_prefix)
  show "snd (analyze_types types tfs) = tfs @ spec_analyze types"
    if "fst (analyze_types types tfs) = Inr ()"
    using that by (simp add: analyze_types_returns_iff analyze_types_ok)
  have "\<And>t. length (filter (\<lambda>tf. field_name tf = n)
                 (map (entry t) (filter field_testable (fields_of t)))) =
             length (filter (\<lambda>f. field_testable f \<and> name_of f = n) (fields_of t))"
    by (simp add: filter_map o_def entry_def conj_commute)
  then show "length (filter (\<lambda>tf. field_name tf = n) (spec_analyze types)) =
     sum_list (map (\<lambda>t. length (filter (\<lambda>f. field_testable f \<and> name_of f = n) (fields_of t)))
                   (filter (\<lambda>t. \<not> is_internal t) types))"
    by (simp add: count_spec_analyze)
qed

theorem testable_fields_in_encounter_order_witness:
  "analyze_types
     [JObj [(''name'', JStr ''Query''),
            (''fields'', JArr [JObj [(''name'', JStr ''users''),
                                     (''type'', JObj [(''kind'', JStr ''LIST'')])],
                               JObj [(''name'', JStr ''count''),
                                     (''type'', JObj [(''kind'', JStr ''SCALAR'')])],
                               JObj [(''name'', JStr ''me''),
                                     (''type'', JObj [(''kind'', JStr ''OBJECT'')])]])],
      JObj [(''name'', JStr ''Mutation''),
            (''fields'', JArr [JObj [(''name'', JStr ''users''),
                                     (''type'', JObj [(''kind'', JStr ''LIST'')])]])]] []
     = (Inr (), [\<lparr>type_name = JStr ''Query'', field_name = JStr ''users''\<rparr>,
                 \<lparr>type_name = JStr ''Query'', field_name = JStr ''me''\<rparr>,
                 \<lparr>type_name = JStr ''Mutation'', field_name = JStr ''users''\<rparr>]) \<and>
   spec_analyze
     [JObj [(''name'', JStr ''Query''),
            (''fields'', JArr [JObj [(''name'', JStr ''users''),
                                     (''type'', JObj [(''kind'', JStr ''LIST'')])],
                               JObj [(''name'', JStr ''count''),
                                     (''type'', JObj [(''kind'', JStr ''SCALAR'')])],
                               JObj [(''name'', JStr ''me''),
                                     (''type'', JObj [(''kind'', JStr ''OBJECT'')])]])],
      JObj [(''name'', JStr ''Mutation''),
            (''fields'', JArr [JObj [(''name'', JStr ''users''),
                                     (''type'', JObj [(''kind'', JStr ''LIST'')])]])]]
     = [\<lparr>type_name = JStr ''Query'', field_name = JStr ''users''\<rparr>,
        \<lparr>type_name = JStr ''Query'', field_name = JStr ''me''\<rparr>,
        \<lparr>type_name = JStr ''Mutation'', field_name = JStr ''users''\<rparr>]"
  using testable_fields_in_encounter_order
    [of "[JObj [(''name'', JStr ''Query''),
            (''fields'', JArr [JObj [(''name'', JStr ''users''),
                                     (''type'', JObj [(''kind'', JStr ''LIST'')])],
                               JObj [(''name'', JStr ''count''),
                                     (''type'', JObj [(''kind'', JStr ''SCALAR'')])],
                               JObj [(''name'', JStr ''me''),
                                     (''type'', JObj [(''kind'', JStr ''OBJECT'')])]])],
      JObj [(''name'', JStr ''Mutation''),
            (''fields'', JArr [JObj [(''name'', JStr ''users''),
                                     (''type'', JObj [(''kind'', JStr ''LIST'')])]])]]" "[]"
        "JStr ''users''"]
  by (simp add: analyze_type_def analyze_field_def is_object_def)

section \<open>The query builders: what the code computes\<close>

lemma digit_char_mem: "d < 10 \<Longrightarrow> digit_char d \<in> set ''0123456789''"
  unfolding digit_char_def by (rule nth_mem) simp

lemma str_nat_digits: "set (str_nat n) \<subseteq> set ''0123456789''"
proof (induction n rule: str_nat.induct)
  case (1 n)
  show ?case
  proof (cases "n < 10")
    case True
    with digit_char_mem[of n] show ?thesis by (subst str_nat.simps) simp
  next
    case False
    have "n mod 10 < 10" by simp
    from digit_char_mem[OF this] 1[OF False] False show ?thesis
      by (subst str_nat.simps) simp
  qed
qed

lemma occurrences_skip:
  "a \<notin> set s \<Longrightarrow> occurrences (a # p) (s @ r) = occurrences (a # p) r"
  by (induction s) auto

lemma no_overlap_drop:
  "no_overlap p r \<Longrightarrow> 0 < k \<Longrightarrow> k < length p \<Longrightarrow> \<not> prefix (drop k p) r"
proof (induction p arbitrary: k)
  case Nil
  then show ?case by simp
next
  case (Cons a p)
  show ?case
  proof (cases k)
    case 0
    with Cons.prems show ?thesis by simp
  next
    case (Suc j)
    show ?thesis
    proof (cases j)
      case 0
      with Suc Cons.prems show ?thesis by auto
    next
      case (Suc i)
      with \<open>k = Suc j\<close> Cons.prems Cons.IH[of j] show ?thesis by auto
    qed
  qed
qed

lemma prefix_append_no_overlap:
  assumes "no_overlap p r" and "s \<noteq> []"
  shows "prefix p (s @ r) \<longleftrightarrow> prefix p s"
proof
  assume "prefix p s" then show "prefix p (s @ r)" by (simp add: prefix_append)
next
  assume "prefix p (s @ r)"
  then consider "prefix p s" | us where "p = s @ us" "prefix us r"
    by (auto simp: prefix_append)
  then show "prefix p s"
  proof cases
    case 1 then show ?thesis .
  next
    case 2
    show ?thesis
    proof (cases "us = []")
      case True with 2 show ?thesis by simp
    next
      case False
      with 2 assms(2) have "0 < length s" "length s < length p" "drop (length s) p = us" by auto
      with no_overlap_drop[OF assms(1), of "length s"] 2 show ?thesis by auto
    qed
  qed
qed

lemma occurrences_append:
  "no_overlap p r \<Longrightarrow> p \<noteq> [] \<Longrightarrow> occurrences p (s @ r) = occurrences p s + occurrences p r"
proof (induction s)
  case Nil
  then show ?case by simp
next
  case (Cons x s)
  from prefix_append_no_overlap[OF Cons.prems(1), of "x # s"]
  have "prefix p (x # s @ r) \<longleftrightarrow> prefix p (x # s)" by simp
  with Cons show ?case by simp
qed

lemma join_snoc: "xs \<noteq> [] \<Longrightarrow> join sep (xs @ [x]) = join sep xs @ sep @ x"
  by (induction sep xs rule: join.induct) auto

lemma join_alias_selections:
  "join '' '' (map (spec_alias_selection f) [0..<n]) = spec_alias_selections f n"
proof (induction f n rule: spec_alias_selections.induct)
  case (3 f n)
  have "[0..<Suc (Suc n)] = [0..<Suc n] @ [Suc n]" by simp
  then have "join '' '' (map (spec_alias_selection f) [0..<Suc (Suc n)]) =
        join '' '' (map (spec_alias_selection f) [0..<Suc n] @ [spec_alias_selection f (Suc n)])"
    by (simp del: upt_Suc)
  also have "\<dots> = join '' '' (map (spec_alias_selection f) [0..<Suc n]) @ '' '' @
                   spec_alias_selection f (Suc n)"
    by (rule join_snoc) simp
  finally show ?case using 3 by simp
qed simp_all

lemma join_replicate: "join '' '' (replicate n s) = spec_repeat s n"
  by (induction s n rule: spec_repeat.induct) simp_all

lemma join_const: "join '' '' (map (\<lambda>_. s) xs) = spec_repeat s (length xs)"
  by (simp add: map_replicate_const join_replicate)

lemma alias_selection_count_alias:
  "occurrences ''alias_'' (spec_alias_selection f i @ r) =
     1 + occurrences ''alias_'' f + occurrences ''alias_'' r"
proof -
  have d: "CHR ''a'' \<notin> set (str_nat i)" using str_nat_digits[of i] by auto
  have "occurrences ''alias_'' (spec_alias_selection f i @ r) =
        1 + occurrences ''alias_'' (str_nat i @ '': '' @ f @ '' { id name }'' @ r)"
    by (simp add: spec_alias_selection_def)
  also have "occurrences ''alias_'' (str_nat i @ '': '' @ f @ '' { id name }'' @ r) =
        occurrences ''alias_'' ('': '' @ f @ '' { id name }'' @ r)"
    by (rule occurrences_skip[OF d])
  also have "\<dots> = occurrences ''alias_'' (f @ '' { id name }'' @ r)" by simp
  also have "\<dots> = occurrences ''alias_'' f + occurrences ''alias_'' ('' { id name }'' @ r)"
    by (rule occurrences_append) simp_all
  also have "occurrences ''alias_'' ('' { id name }'' @ r) = occurrences ''alias_'' r" by simp
  finally show ?thesis by simp
qed

lemma alias_selection_count_sub:
  "occurrences ''{ id name }'' (spec_alias_selection f i @ r) =
     1 + occurrences ''{ id name }'' f + occurrences ''{ id name }'' r"
proof -
  have d: "CHR ''{'' \<notin> set (str_nat i)" using str_nat_digits[of i] by auto
  have "occurrences ''{ id name }'' (spec_alias_selection f i @ r) =
        occurrences ''{ id name }'' (str_nat i @ '': '' @ f @ '' { id name }'' @ r)"
    by (simp add: spec_alias_selection_def)
  also have "\<dots> = occurrences ''{ id name }'' ('': '' @ f @ '' { id name }'' @ r)"
    by (rule occurrences_skip[OF d])
  also have "\<dots> = occurrences ''{ id name }'' (f @ '' { id name }'' @ r)" by simp
  also have "\<dots> = occurrences ''{ id name }'' f + occurrences ''{ id name }'' ('' { id name }'' @ r)"
    by (rule occurrences_append) simp_all
  also have "occurrences ''{ id name }'' ('' { id name }'' @ r) = 1 + occurrences ''{ id name }'' r"
    by simp
  finally show ?thesis by simp
qed

lemma alias_parts_count:
  assumes part: "\<And>i r. occurrences p (spec_alias_selection f i @ r) = 1 + occurrences p f + occurrences p r"
    and sp: "\<And>r. occurrences p (CHR '' '' # r) = occurrences p r"
    and cl: "occurrences p ''}'' = 0"
  shows "occurrences p (join '' '' (map (spec_alias_selection f) is) @ ''}'') =
           length is * (1 + occurrences p f)"
proof (induction "is")
  case Nil
  then show ?case using cl by simp
next
  case (Cons i js)
  note IH = Cons.IH
  show ?case
  proof (cases js)
    case Nil
    then show ?thesis using part[of i "''}''"] cl by simp
  next
    case more: (Cons j ks)
    have "occurrences p (join '' '' (map (spec_alias_selection f) (i # js)) @ ''}'') =
          occurrences p (spec_alias_selection f i @
             CHR '' '' # (join '' '' (map (spec_alias_selection f) js) @ ''}''))"
      using more by simp
    also have "\<dots> = 1 + occurrences p f +
        occurrences p (join '' '' (map (spec_alias_selection f) js) @ ''}'')"
      by (simp only: part sp)
    finally show ?thesis using IH by simp
  qed
qed

lemma alias_query_eq:
  "alias_overloading_query f n = ''query {'' @ spec_alias_selections f (nat n) @ ''}''"
proof -
  have "(\<lambda>i. ''alias_'' @ str_nat i @ '': '' @ f @ '' { id name }'') = spec_alias_selection f"
    by (rule ext) (simp add: spec_alias_selection_def)
  then show ?thesis
    by (simp add: alias_overloading_query_def py_range_def join_alias_selections)
qed

lemma join_Cons_ex: "\<exists>r. join sep (x # xs) = x @ r"
  by (cases xs) auto

lemma body_first_char:
  "\<exists>c r. join '' '' (map (spec_alias_selection f) is) @ ''}'' = c # r \<and> c \<noteq> CHR '' ''"
proof (cases "is")
  case Nil
  then show ?thesis by simp
next
  case (Cons i js)
  obtain r where "join '' '' (map (spec_alias_selection f) is) = spec_alias_selection f i @ r"
    using join_Cons_ex[of "'' ''" "spec_alias_selection f i" "map (spec_alias_selection f) js"] Cons
    by auto
  then show ?thesis by (simp add: spec_alias_selection_def)
qed

lemma alias_query_count_alias:
  "occurrences ''alias_'' (alias_overloading_query f n) = nat n * (1 + occurrences ''alias_'' f)"
proof -
  have "(\<lambda>i. ''alias_'' @ str_nat i @ '': '' @ f @ '' { id name }'') = spec_alias_selection f"
    by (rule ext) (simp add: spec_alias_selection_def)
  then have "occurrences ''alias_'' (alias_overloading_query f n) =
        occurrences ''alias_'' (join '' '' (map (spec_alias_selection f) [0..<nat n]) @ ''}'')"
    by (simp add: alias_overloading_query_def py_range_def)
  also have "\<dots> = length [0..<nat n] * (1 + occurrences ''alias_'' f)"
    by (rule alias_parts_count) (simp_all add: alias_selection_count_alias)
  finally show ?thesis by simp
qed

lemma alias_query_count_sub:
  "occurrences ''{ id name }'' (alias_overloading_query f n) =
     nat n * (1 + occurrences ''{ id name }'' f)"
proof -
  have "(\<lambda>i. ''alias_'' @ str_nat i @ '': '' @ f @ '' { id name }'') = spec_alias_selection f"
    by (rule ext) (simp add: spec_alias_selection_def)
  moreover obtain c r where
    cr: "join '' '' (map (spec_alias_selection f) [0..<nat n]) @ ''}'' = c # r" "c \<noteq> CHR '' ''"
    using body_first_char by blast
  ultimately have "occurrences ''{ id name }'' (alias_overloading_query f n) =
        occurrences ''{ id name }'' (''query {'' @ c # r)"
    by (simp add: alias_overloading_query_def py_range_def)
  also have "\<dots> = occurrences ''{ id name }'' (c # r)" using cr(2) by simp
  also have "\<dots> = occurrences ''{ id name }''
                     (join '' '' (map (spec_alias_selection f) [0..<nat n]) @ ''}'')"
    using cr(1) by simp
  also have "\<dots> = length [0..<nat n] * (1 + occurrences ''{ id name }'' f)"
    by (rule alias_parts_count) (simp_all add: alias_selection_count_sub)
  finally show ?thesis by simp
qed

lemma repeat_first_char:
  "\<exists>r. spec_repeat (c # s) n @ CHR '' '' # t = c # r \<or> spec_repeat (c # s) n @ CHR '' '' # t = CHR '' '' # r"
  by (cases "(c # s, n)" rule: spec_repeat.cases) auto

lemma directives_count:
  "occurrences ''@include(if: true)'' (spec_repeat ''@include(if: true)'' n @ '' { id name } }'') = n"
  by (induction "''@include(if: true)''" n rule: spec_repeat.induct) simp_all

lemma directive_query_eq:
  "directive_overloading_query f n =
     ''query { '' @ f @ '' '' @ spec_repeat ''@include(if: true)'' (nat n) @ '' { id name } }''"
  by (simp add: directive_overloading_query_def py_range_def join_const)

lemma directive_query_count:
  "occurrences ''@include(if: true)'' (directive_overloading_query f n) =
     nat n + occurrences ''@include(if: true)'' f"
proof -
  let ?p = "''@include(if: true)''"
  let ?t = "spec_repeat ?p (nat n) @ '' { id name } }''"
  obtain r where r: "?t = CHR ''@'' # r \<or> ?t = CHR '' '' # r"
    using repeat_first_char[of "CHR ''@''" "''include(if: true)''" "nat n" "''{ id name } }''"]
    by auto
  have no: "no_overlap ?p (CHR '' '' # ?t)"
    using r by (elim disjE) simp_all
  have "occurrences ?p (directive_overloading_query f n) = occurrences ?p (f @ CHR '' '' # ?t)"
    by (simp add: directive_query_eq)
  also have "\<dots> = occurrences ?p f + occurrences ?p (CHR '' '' # ?t)"
    by (rule occurrences_append[OF no]) simp
  also have "occurrences ?p (CHR '' '' # ?t) = occurrences ?p ?t" by simp
  also have "\<dots> = nat n" by (rule directives_count)
  finally show ?thesis by simp
qed

lemma duplicates_count:
  "occurrences ''id name'' (spec_repeat ''id name'' n @ '' } }'') = n"
  by (induction "''id name''" n rule: spec_repeat.induct) simp_all

lemma duplication_query_eq:
  "field_duplication_query f n =
     ''query { '' @ f @ '' { '' @ spec_repeat ''id name'' (nat n) @ '' } }''"
  by (simp add: field_duplication_query_def py_range_def join_const)

lemma duplication_query_count:
  "occurrences ''id name'' (field_duplication_query f n) = nat n + occurrences ''id name'' f"
proof -
  let ?p = "''id name''"
  let ?t = "spec_repeat ?p (nat n) @ '' } }''"
  have "occurrences ?p (field_duplication_query f n) = occurrences ?p (f @ '' { '' @ ?t)"
    by (simp add: duplication_query_eq)
  also have "\<dots> = occurrences ?p f + occurrences ?p ('' { '' @ ?t)"
    by (rule occurrences_append) simp_all
  also have "occurrences ?p ('' { '' @ ?t) = occurrences ?p ?t" by simp
  also have "\<dots> = nat n" by (rule duplicates_count)
  finally show ?thesis by simp
qed

subsection \<open>Claims about the query builders\<close>

text \<open>
  C5, as the claim states it, fails on the counts: the field name is copied into the
  query as it is, so a field whose name contains \<open>alias_\<close> gives more than \<open>n\<close>
  occurrences of \<open>alias_\<close>.
\<close>

theorem alias_count_counterexample:
  "occurrences ''alias_'' (alias_overloading_query ''alias_x'' 1) = 2"
  by (simp add: alias_overloading_query_def py_range_def str_nat.simps digit_char_def)

text \<open>
  C5, amended. For every field name and every iteration count \<open>n\<close> (a count of zero or
  less builds no selection, directive or copy), the three builders produce exactly: for
  ALIAS, \<open>query {\<close>, the selections \<open>alias_0\<close> to \<open>alias_{n-1}\<close> of the field, each with the
  sub-selection \<open>{ id name }\<close>, single spaces between them, and \<open>}\<close>; for DIRECTIVE, one
  selection of the field with \<open>@include(if: true)\<close> repeated \<open>n\<close> times and the
  sub-selection \<open>id name\<close>; for DUPLICATE, one selection of the field whose body is
  \<open>id name\<close> repeated \<open>n\<close> times. The field name is copied unchanged, so each marker
  occurs once per copy it has in the field name besides the \<open>n\<close> occurrences the builder
  writes: exactly \<open>n\<close> when the field name contains none.
\<close>

theorem query_builders_exact:
  "alias_overloading_query f n = ''query {'' @ spec_alias_selections f (nat n) @ ''}'' \<and>
   occurrences ''alias_'' (alias_overloading_query f n) = nat n * (1 + occurrences ''alias_'' f) \<and>
   occurrences ''{ id name }'' (alias_overloading_query f n) =
     nat n * (1 + occurrences ''{ id name }'' f) \<and>
   directive_overloading_query f n =
     ''query { '' @ f @ '' '' @ spec_repeat ''@include(if: true)'' (nat n) @ '' { id name } }'' \<and>
   occurrences ''@include(if: true)'' (directive_overloading_query f n) =
     nat n + occurrences ''@include(if: true)'' f \<and>
   field_duplication_query f n =
     ''query { '' @ f @ '' { '' @ spec_repeat ''id name'' (nat n) @ '' } }'' \<and>
   occurrences ''id name'' (field_duplication_query f n) = nat n + occurrences ''id name'' f"
  by (intro conjI alias_query_eq alias_query_count_alias alias_query_count_sub
      directive_query_eq directive_query_count duplication_query_eq duplication_query_count)

theorem query_builders_exact_witness:
  "alias_overloading_query ''user'' 3 =
     ''query {alias_0: user { id name } alias_1: user { id name } alias_2: user { id name }}'' \<and>
   occurrences ''alias_'' (alias_overloading_query ''user'' 3) = 3 \<and>
   occurrences ''{ id name }'' (alias_overloading_query ''user'' 3) = 3 \<and>
   directive_overloading_query ''user'' 2 =
     ''query { user @include(if: true) @include(if: true) { id name } }'' \<and>
   occurrences ''@include(if: true)'' (directive_overloading_query ''user'' 2) = 2 \<and>
   field_duplication_query ''user'' 4 = ''query { user { id name id name id name id name } }'' \<and>
   occurrences ''id name'' (field_duplication_query ''user'' 4) = 4"
proof -
  have s3: "spec_alias_selections ''user'' 3 =
      ''alias_0: user { id name } alias_1: user { id name } alias_2: user { id name }''"
    by (simp add: eval_nat_numeral spec_alias_selection_def str_nat.simps digit_char_def)
  have r2: "spec_repeat ''@include(if: true)'' 2 = ''@include(if: true) @include(if: true)''"
    by (simp add: eval_nat_numeral)
  have r4: "spec_repeat ''id name'' 4 = ''id name id name id name id name''"
    by (simp add: eval_nat_numeral)
  show ?thesis
    using query_builders_exact[of "''user''" 3] query_builders_exact[of "''user''" 2]
      query_builders_exact[of "''user''" 4]
    by (simp add: s3 r2 r4)
qed

section \<open>The run: what the code does\<close>

lemma print_simps [simp]:
  "posts (print x st) = posts st" "testable_fields (print x st) = testable_fields st"
  "self_url (print x st) = self_url st" "self_headers (print x st) = self_headers st"
  "clock_reads (print x st) = clock_reads st" "console (print x st) = console st @ [x]"
  by (simp_all add: print_def)

lemma send_query_transport:
  assumes "post e (length (posts st)) (probe_request (self_url st) (self_headers st) q) = Transport_Failure d"
  shows "send_query e q st =
           (Inr (JNull, 0, Some (''Request error: '' @ d)),
            st\<lparr>clock_reads := Suc (clock_reads st),
               posts := posts st @ [probe_request (self_url st) (self_headers st) q]\<rparr>)"
  using assms by (simp add: send_query_def time_time_def requests_post_def probe_request_def)

lemma send_query_not_json:
  assumes "post e (length (posts st)) (probe_request (self_url st) (self_headers st) q) = Response r"
    and "body_json r = Inl JSONDecodeError"
  shows "send_query e q st =
           (Inr (JNull, clock e (Suc (clock_reads st)) - clock e (clock_reads st),
                 Some (''Invalid JSON response: '' @ body_text r)),
            st\<lparr>clock_reads := Suc (Suc (clock_reads st)),
               posts := posts st @ [probe_request (self_url st) (self_headers st) q]\<rparr>)"
  using assms
  by (simp add: send_query_def time_time_def requests_post_def probe_request_def response_json_def)

lemma send_query_success:
  assumes "post e (length (posts st)) (probe_request (self_url st) (self_headers st) q) = Response r"
    and "body_json r = Inr v"
  shows "send_query e q st =
           (Inr (v, clock e (Suc (clock_reads st)) - clock e (clock_reads st), None),
            st\<lparr>clock_reads := Suc (Suc (clock_reads st)),
               posts := posts st @ [probe_request (self_url st) (self_headers st) q]\<rparr>)"
  using assms
  by (simp add: send_query_def time_time_def requests_post_def probe_request_def response_json_def)

lemma send_query_json_request_exception:
  assumes "post e (length (posts st)) (probe_request (self_url st) (self_headers st) q) = Response r"
    and "body_json r = Inl (RequestException d)"
  shows "send_query e q st =
           (Inr (JNull, 0, Some (''Request error: '' @ d)),
            st\<lparr>clock_reads := Suc (Suc (clock_reads st)),
               posts := posts st @ [probe_request (self_url st) (self_headers st) q]\<rparr>)"
  using assms
  by (simp add: send_query_def time_time_def requests_post_def probe_request_def response_json_def)

lemma send_query_json_raises:
  assumes "post e (length (posts st)) (probe_request (self_url st) (self_headers st) q) = Response r"
    and "body_json r = Inl x" and "x \<noteq> JSONDecodeError" and "\<forall>d. x \<noteq> RequestException d"
  shows "send_query e q st =
           (Inl x,
            st\<lparr>clock_reads := Suc (Suc (clock_reads st)),
               posts := posts st @ [probe_request (self_url st) (self_headers st) q]\<rparr>)"
  using assms
  by (cases x)
     (simp_all add: send_query_def time_time_def requests_post_def probe_request_def
        response_json_def)

lemma test_alias_overloading_probe:
  "test_alias_overloading e fname n st =
     probe e (alias_overloading_query (py_format e fname) n) (print Testing_Alias st)"
  by (simp add: test_alias_overloading_def probe_def)

lemma test_directive_overloading_probe:
  "test_directive_overloading e fname n st =
     probe e (directive_overloading_query (py_format e fname) n) (print Testing_Directive st)"
  by (simp add: test_directive_overloading_def probe_def)

lemma test_field_duplication_probe:
  "test_field_duplication e fname n st =
     probe e (field_duplication_query (py_format e fname) n) (print Testing_Duplication st)"
  by (simp add: test_field_duplication_def probe_def)

lemma send_query_state:
  "posts (snd (send_query e q st)) = posts st @ [probe_request (self_url st) (self_headers st) q] \<and>
   self_url (snd (send_query e q st)) = self_url st \<and>
   self_headers (snd (send_query e q st)) = self_headers st \<and>
   testable_fields (snd (send_query e q st)) = testable_fields st \<and>
   console (snd (send_query e q st)) = console st"
proof (cases "post e (length (posts st)) (probe_request (self_url st) (self_headers st) q)")
  case (Transport_Failure d)
  then show ?thesis by (simp add: send_query_transport)
next
  case (Response r)
  show ?thesis
  proof (cases "body_json r")
    case (Inr v)
    with Response show ?thesis by (simp add: send_query_success)
  next
    case (Inl x)
    show ?thesis
    proof (cases "x = JSONDecodeError \<or> (\<exists>d. x = RequestException d)")
      case True
      with Response Inl show ?thesis
        by (auto simp: send_query_not_json send_query_json_request_exception)
    next
      case False
      with Response Inl show ?thesis by (simp add: send_query_json_raises)
    qed
  qed
qed

lemma json_abort_raises:
  "x \<noteq> JSONDecodeError \<Longrightarrow> \<forall>d. x \<noteq> RequestException d \<Longrightarrow> json_abort (Inl x) = Some x"
  by (cases x) simp_all

lemma errors_detected_message:
  "m \<noteq> [] \<Longrightarrow> errors_detected (Some m) v = Inr True"
  by (simp add: errors_detected_def)

lemma errors_detected_none:
  "errors_detected None v =
     (if truthy v \<and> \<not> is_dict v then Inl AttributeError
      else Inr (truthy v \<and> (case py_get v ''errors'' JNull of Inr x \<Rightarrow> truthy x | Inl _ \<Rightarrow> False)))"
  by (cases v) (auto simp: errors_detected_def split: option.splits)

lemma probe_result:
  "fst (probe e q st) =
     (case abort_exn (post e (length (posts st)) (probe_request (self_url st) (self_headers st) q)) of
        None \<Rightarrow> Inr () | Some x \<Rightarrow> Inl x)"
proof (cases "post e (length (posts st)) (probe_request (self_url st) (self_headers st) q)")
  case (Transport_Failure d)
  then show ?thesis
    by (simp add: probe_def send_query_transport errors_detected_message)
next
  case (Response r)
  show ?thesis
  proof (cases "body_json r")
    case (Inr v)
    with Response show ?thesis
      by (simp add: probe_def send_query_success errors_detected_none Let_def)
  next
    case (Inl x)
    show ?thesis
    proof (cases "x = JSONDecodeError \<or> (\<exists>d. x = RequestException d)")
      case True
      with Response Inl show ?thesis
        by (auto simp: probe_def send_query_not_json send_query_json_request_exception
            errors_detected_message)
    next
      case False
      with Response Inl show ?thesis
        by (simp add: probe_def send_query_json_raises json_abort_raises)
    qed
  qed
qed

lemma probe_state:
  "posts (snd (probe e q st)) = posts st @ [probe_request (self_url st) (self_headers st) q] \<and>
   self_url (snd (probe e q st)) = self_url st \<and>
   self_headers (snd (probe e q st)) = self_headers st \<and>
   testable_fields (snd (probe e q st)) = testable_fields st"
proof -
  note s = send_query_state[of e q st]
  obtain r st' where sq: "send_query e q st = (r, st')" by (cases "send_query e q st")
  show ?thesis
  proof (cases r)
    case (Inl x)
    with sq s show ?thesis by (simp add: probe_def)
  next
    case (Inr res)
    obtain a b c where res: "res = (a, b, c)" by (cases res)
    show ?thesis using sq s Inr res
      by (cases "errors_detected c a") (simp_all add: probe_def Let_def)
  qed
qed

lemma probe_transport_failure:
  assumes "post e (length (posts st)) (probe_request (self_url st) (self_headers st) q) = Transport_Failure d"
  shows "fst (probe e q st) = Inr () \<and>
         console (snd (probe e q st)) = console st @ [Response_Time 0, Errors_Detected]"
  using assms by (simp add: probe_def send_query_transport errors_detected_message)

lemma case_returned:
  "fst p = Inr () \<Longrightarrow>
   (case p of (Inl x, s) \<Rightarrow> f x s | (Inr u, s) \<Rightarrow> g u s) = g () (snd p)"
  by (cases p) auto

lemma case_raised:
  "fst p = Inl x \<Longrightarrow>
   (case p of (Inl x, s) \<Rightarrow> f x s | (Inr u, s) \<Rightarrow> g u s) = f x (snd p)"
  by (cases p) auto

lemma none_aborting_append:
  "none_aborting e (rs @ rs') k \<longleftrightarrow> none_aborting e rs k \<and> none_aborting e rs' (k + length rs)"
  by (induction rs arbitrary: k) auto

lemma plan_result_returns_iff: "plan_result e rs k = Inr () \<longleftrightarrow> none_aborting e rs k"
  by (induction rs arbitrary: k) (auto simp: aborting_def split: option.splits)

lemma plan_result_append:
  "plan_result e (rs @ rs') k =
     (if none_aborting e rs k then plan_result e rs' (k + length rs) else plan_result e rs k)"
  by (induction rs arbitrary: k) (auto simp: aborting_def split: option.splits)

lemma print_report_simps [simp]:
  "posts (print_report st) = posts st" "testable_fields (print_report st) = testable_fields st"
  "self_url (print_report st) = self_url st" "self_headers (print_report st) = self_headers st"
  by (simp_all add: print_report_def)

lemma analyze_schema_state:
  "posts (snd (analyze_schema schema st)) = posts st \<and>
   self_url (snd (analyze_schema schema st)) = self_url st \<and>
   self_headers (snd (analyze_schema schema st)) = self_headers st"
  by (auto simp: analyze_schema_def split: sum.splits prod.splits)

lemma analyze_schema_fields:
  "py_getitem schema ''types'' = Inr (JArr types) \<Longrightarrow>
   fst (analyze_schema schema st) = fst (analyze_types types (testable_fields st)) \<and>
   testable_fields (snd (analyze_schema schema st)) = snd (analyze_types types (testable_fields st))"
  by (auto simp: analyze_schema_def split: sum.splits prod.splits)

lemma analyze_schema_stateD:
  "analyze_schema schema st = (r, st') \<Longrightarrow>
   posts st' = posts st \<and> self_url st' = self_url st \<and> self_headers st' = self_headers st"
  using analyze_schema_state[of schema st] by simp

lemma requests_post_simps:
  "snd (requests_post e req st) = st\<lparr>posts := posts st @ [req]\<rparr>"
  "post e (length (posts st)) req = Transport_Failure d \<Longrightarrow>
     fst (requests_post e req st) = Inl (RequestException d)"
  "post e (length (posts st)) req = Response r \<Longrightarrow> fst (requests_post e req st) = Inr r"
  by (simp_all add: requests_post_def)

lemma introspection_try_state:
  "posts (snd (introspection_try e p st)) = posts st @ [p] \<and>
   self_url (snd (introspection_try e p st)) = self_url st \<and>
   self_headers (snd (introspection_try e p st)) = self_headers st"
proof -
  obtain r where rp: "requests_post e p st = (r, st\<lparr>posts := posts st @ [p]\<rparr>)"
    using requests_post_simps(1)[of e p st] by (cases "requests_post e p st") auto
  show ?thesis
    by (auto simp: introspection_try_def rp Let_def split: sum.splits prod.splits
             dest!: analyze_schema_stateD)
qed

lemma test_introspection_state:
  "posts (snd (test_introspection e st)) =
     posts st @ [introspection_request (self_url st) (self_headers st)] \<and>
   self_url (snd (test_introspection e st)) = self_url st \<and>
   self_headers (snd (test_introspection e st)) = self_headers st"
  using introspection_try_state[of e "introspection_request (self_url st) (self_headers st)" st]
  by (auto simp: test_introspection_def introspection_request_def Let_def
           split: sum.splits prod.splits)

lemma test_introspection_raised:
  assumes "fst (introspection_try e (introspection_request (self_url st) (self_headers st)) st) = Inl x"
  shows "test_introspection e st =
           (False, print (Introspection_Error x)
              (snd (introspection_try e (introspection_request (self_url st) (self_headers st)) st)))"
  using assms
  by (cases "introspection_try e (introspection_request (self_url st) (self_headers st)) st")
     (simp add: test_introspection_def introspection_request_def)

lemma test_introspection_returned:
  assumes "fst (introspection_try e (introspection_request (self_url st) (self_headers st)) st) = Inr b"
  shows "test_introspection e st =
           (b, snd (introspection_try e (introspection_request (self_url st) (self_headers st)) st))"
  using assms
  by (cases "introspection_try e (introspection_request (self_url st) (self_headers st)) st")
     (simp add: test_introspection_def introspection_request_def)

lemma lacks_schema_has_schema: "lacks_schema result \<Longrightarrow> has_schema result = Inr False"
  by (cases result)
     (auto simp: has_schema_def map_of_eq_None_iff[symmetric]
           split: option.splits json.splits)

lemma no_path_has_schema:
  "\<not> has_schema_path result \<Longrightarrow> has_schema result = Inr True \<Longrightarrow>
   \<exists>d x. py_getitem result ''data'' = Inr d \<and> py_getitem d ''__schema'' = Inl x"
  by (cases result)
     (auto simp: has_schema_def map_of_eq_None_iff[symmetric]
           split: option.splits json.splits if_splits sum.splits)

lemma posted_until_abort_append:
  "posted_until_abort e (rs @ rs') k =
     (if none_aborting e rs k then rs @ posted_until_abort e rs' (k + length rs)
      else posted_until_abort e rs k)"
  by (induction rs arbitrary: k) auto

lemma posted_until_abort_benign:
  "none_aborting e rs k \<Longrightarrow> posted_until_abort e rs k = rs"
  by (induction rs arbitrary: k) auto

lemma attacks_general:
  "fst (test_overloading_attacks e tf n st) =
     plan_result e (map (probe_request (self_url st) (self_headers st)) (field_queries e tf n))
       (length (posts st)) \<and>
   posts (snd (test_overloading_attacks e tf n st)) =
     posts st @ posted_until_abort e
        (map (probe_request (self_url st) (self_headers st)) (field_queries e tf n))
        (length (posts st)) \<and>
   self_url (snd (test_overloading_attacks e tf n st)) = self_url st \<and>
   self_headers (snd (test_overloading_attacks e tf n st)) = self_headers st \<and>
   testable_fields (snd (test_overloading_attacks e tf n st)) = testable_fields st"
proof -
  let ?f = "py_format e (field_name tf)"
  let ?s0 = "print (Testing_Field (type_name tf) (field_name tf)) st"
  let ?q1 = "alias_overloading_query ?f n"
  let ?q2 = "directive_overloading_query ?f n"
  let ?q3 = "field_duplication_query ?f n"
  let ?p1 = "probe e ?q1 (print Testing_Alias ?s0)"
  let ?p2 = "probe e ?q2 (print Testing_Directive (snd ?p1))"
  let ?p3 = "probe e ?q3 (print Testing_Duplication (snd ?p2))"
  let ?a1 = "abort_exn (post e (length (posts st)) (probe_request (self_url st) (self_headers st) ?q1))"
  let ?a2 = "abort_exn (post e (Suc (length (posts st))) (probe_request (self_url st) (self_headers st) ?q2))"
  let ?a3 = "abort_exn (post e (Suc (Suc (length (posts st)))) (probe_request (self_url st) (self_headers st) ?q3))"
  note s1 = probe_state[of e ?q1 "print Testing_Alias ?s0"]
  note s2 = probe_state[of e ?q2 "print Testing_Directive (snd ?p1)"]
  note s3 = probe_state[of e ?q3 "print Testing_Duplication (snd ?p2)"]
  have r1: "fst ?p1 = (case ?a1 of None \<Rightarrow> Inr () | Some x \<Rightarrow> Inl x)"
    by (simp add: probe_result)
  have r2: "fst ?p2 = (case ?a2 of None \<Rightarrow> Inr () | Some x \<Rightarrow> Inl x)"
    using s1 by (simp add: probe_result)
  have r3: "fst ?p3 = (case ?a3 of None \<Rightarrow> Inr () | Some x \<Rightarrow> Inl x)"
    using s1 s2 by (simp add: probe_result)
  have unf: "test_overloading_attacks e tf n st =
      (case ?p1 of (Inl x, st2) \<Rightarrow> (Inl x, st2)
       | (Inr u, st2) \<Rightarrow>
           (case probe e ?q2 (print Testing_Directive st2) of
              (Inl x, st3) \<Rightarrow> (Inl x, st3)
            | (Inr u, st3) \<Rightarrow> probe e ?q3 (print Testing_Duplication st3)))"
    by (simp add: test_overloading_attacks_def test_alias_overloading_probe
        test_directive_overloading_probe test_field_duplication_probe Let_def
        split: prod.splits sum.splits)
  show ?thesis
  proof (cases ?a1)
    case (Some x)
    with r1 have "fst ?p1 = Inl x" by simp
    from case_raised[OF this] unf have "test_overloading_attacks e tf n st = (Inl x, snd ?p1)"
      by simp
    with Some s1 show ?thesis by (simp add: field_queries_def aborting_def)
  next
    case n1: None
    with r1 have f1: "fst ?p1 = Inr ()" by simp
    show ?thesis
    proof (cases ?a2)
      case (Some x)
      with r2 have "fst ?p2 = Inl x" by simp
      from case_raised[OF this] unf have
        "test_overloading_attacks e tf n st = (Inl x, snd ?p2)"
        by (simp add: case_returned[OF f1])
      with n1 Some s1 s2 show ?thesis by (simp add: field_queries_def aborting_def)
    next
      case n2: None
      with r2 have f2: "fst ?p2 = Inr ()" by simp
      from unf have "test_overloading_attacks e tf n st = ?p3"
        by (simp add: case_returned[OF f1] case_returned[OF f2])
      with n1 n2 r3 s1 s2 s3 show ?thesis
        by (cases ?a3) (simp_all add: field_queries_def aborting_def)
    qed
  qed
qed

lemma all_fields_general:
  "fst (test_all_fields e tfs n st) =
     plan_result e (map (probe_request (self_url st) (self_headers st)) (planned_queries e tfs n))
       (length (posts st)) \<and>
   posts (snd (test_all_fields e tfs n st)) =
     posts st @ posted_until_abort e
        (map (probe_request (self_url st) (self_headers st)) (planned_queries e tfs n))
        (length (posts st)) \<and>
   testable_fields (snd (test_all_fields e tfs n st)) = testable_fields st"
proof (induction tfs arbitrary: st)
  case Nil
  then show ?case by (simp add: planned_queries_def)
next
  case (Cons tf tfs)
  let ?u = "self_url st" and ?h = "self_headers st"
  let ?a = "test_overloading_attacks e tf n st"
  let ?fq = "map (probe_request ?u ?h) (field_queries e tf n)"
  let ?pq = "map (probe_request ?u ?h) (planned_queries e tfs n)"
  note a = attacks_general[of e tf n st]
  have pl: "map (probe_request ?u ?h) (planned_queries e (tf # tfs) n) = ?fq @ ?pq"
    by (simp add: planned_queries_def)
  show ?case
  proof (cases "none_aborting e ?fq (length (posts st))")
    case True
    with a have f: "fst ?a = Inr ()" by (simp add: plan_result_returns_iff)
    have pb: "posted_until_abort e ?fq (length (posts st)) = ?fq"
      by (rule posted_until_abort_benign[OF True])
    have len: "length (posts (snd ?a)) = length (posts st) + length ?fq"
      using a pb by simp
    have "test_all_fields e (tf # tfs) n st = test_all_fields e tfs n (snd ?a)"
      by (simp add: case_returned[OF f])
    with Cons.IH[of "snd ?a"] a True len show ?thesis
      by (simp add: pl plan_result_append posted_until_abort_append pb)
  next
    case False
    then have "plan_result e ?fq (length (posts st)) \<noteq> Inr ()"
      by (simp add: plan_result_returns_iff)
    then obtain x where x: "plan_result e ?fq (length (posts st)) = Inl x"
      by (cases "plan_result e ?fq (length (posts st))") auto
    with a have "fst ?a = Inl x" by simp
    from case_raised[OF this]
    have "test_all_fields e (tf # tfs) n st = (Inl x, snd ?a)" by simp
    with a False x show ?thesis
      by (simp add: pl plan_result_append posted_until_abort_append)
  qed
qed

lemma tester_simps [simp]:
  "posts (tester u) = []" "testable_fields (tester u) = []" "self_url (tester u) = u"
  "self_headers (tester u) = fixed_headers" "console (tester u) = [Testing_Endpoint u]"
  "clock_reads (tester u) = 0"
  by (simp_all add: tester_def init_def start_def print_def fixed_headers_def)

lemma run_disabled:
  "fst (test_introspection e (tester u)) = False \<Longrightarrow>
   run e u n = (Exit_Code 0, print Cannot_Proceed (snd (test_introspection e (tester u))))"
  by (cases "test_introspection e (tester u)") (simp add: run_def tester_def)

lemma run_enabled:
  "fst (test_introspection e (tester u)) = True \<Longrightarrow>
   run e u n =
     (case test_all_fields e (testable_fields (snd (test_introspection e (tester u)))) n
             (print Starting_Tests (snd (test_introspection e (tester u)))) of
        (Inl x, st2) \<Rightarrow> (Uncaught x, st2)
      | (Inr _, st2) \<Rightarrow> (Exit_Code 0, st2))"
  by (cases "test_introspection e (tester u)") (simp add: run_def tester_def)

lemma main_default: "main e prog [u] = run e u 100"
  by (simp add: main_def Let_def)

lemma main_supplied:
  "main e prog (u # a # rest) =
     (case py_int e a of None \<Rightarrow> (Uncaught ValueError, start) | Some n \<Rightarrow> run e u n)"
  by (simp add: main_def Let_def split: option.splits)

lemma introspection_lacks:
  assumes "post e (length (posts st)) p = Response r" "body_json r = Inr result"
    "lacks_schema result"
  shows "introspection_try e p st =
           (Inr False, print Introspection_Disabled (st\<lparr>posts := posts st @ [p]\<rparr>))"
  using assms
  by (simp add: introspection_try_def requests_post_def response_json_def lacks_schema_has_schema)

lemma introspection_no_path:
  assumes "post e (length (posts st)) p = Response r" "body_json r = Inr result"
    "\<not> has_schema_path result"
  shows "fst (introspection_try e p st) \<noteq> Inr True \<and>
         testable_fields (snd (introspection_try e p st)) = testable_fields st"
proof (cases "has_schema result")
  case (Inl x)
  with assms show ?thesis
    by (simp add: introspection_try_def requests_post_def response_json_def)
next
  case (Inr b)
  show ?thesis
  proof (cases b)
    case False
    with Inr assms show ?thesis
      by (simp add: introspection_try_def requests_post_def response_json_def)
  next
    case True
    with Inr no_path_has_schema[OF assms(3)] obtain d x where
      "py_getitem result ''data'' = Inr d" "py_getitem d ''__schema'' = Inl x" by auto
    with True Inr assms show ?thesis
      by (simp add: introspection_try_def requests_post_def response_json_def Let_def)
  qed
qed

lemma test_introspection_no_path:
  assumes "post e (length (posts st)) (introspection_request (self_url st) (self_headers st)) = Response r"
    "body_json r = Inr result" "\<not> has_schema_path result"
  shows "fst (test_introspection e st) = False \<and>
         testable_fields (snd (test_introspection e st)) = testable_fields st"
proof -
  let ?t = "introspection_try e (introspection_request (self_url st) (self_headers st)) st"
  from introspection_no_path[OF assms] have n: "fst ?t \<noteq> Inr True"
    and t: "testable_fields (snd ?t) = testable_fields st" by auto
  show ?thesis
  proof (cases "fst ?t")
    case (Inl x)
    from test_introspection_raised[OF this] t show ?thesis by simp
  next
    case (Inr b)
    from test_introspection_returned[OF this] n t Inr show ?thesis by simp
  qed
qed

lemma schema_typesD:
  assumes "schema_types result = Some types"
  shows "\<exists>d schema. has_schema result = Inr True \<and> py_getitem result ''data'' = Inr d \<and>
           py_getitem d ''__schema'' = Inr schema \<and> py_getitem schema ''types'' = Inr (JArr types)"
proof -
  from assms obtain kvs where r: "result = JObj kvs"
    by (cases result) (auto simp: schema_types_def)
  from assms r obtain d where d: "map_of kvs ''data'' = Some (JObj d)"
    by (auto simp: schema_types_def split: option.splits json.splits)
  from assms r d obtain schema where s: "map_of d ''__schema'' = Some schema"
    by (auto simp: schema_types_def split: option.splits)
  from assms r d s have t: "py_getitem schema ''types'' = Inr (JArr types)"
    by (auto simp: schema_types_def split: sum.splits json.splits)
  from d have "''data'' \<in> fst ` set kvs" by (metis map_of_eq_None_iff option.distinct(1))
  moreover from s have "''__schema'' \<in> fst ` set d" by (metis map_of_eq_None_iff option.distinct(1))
  ultimately have "has_schema result = Inr True"
    using r d by (simp add: has_schema_def)
  with r d s t show ?thesis by simp
qed

lemma introspection_schema:
  assumes "post e (length (posts st)) p = Response r" "body_json r = Inr result"
    "schema_types result = Some types"
  shows "fst (introspection_try e p st) =
           (case fst (analyze_types types (testable_fields st)) of
              Inl x \<Rightarrow> Inl x | Inr u \<Rightarrow> Inr True) \<and>
         testable_fields (snd (introspection_try e p st)) =
           snd (analyze_types types (testable_fields st))"
proof -
  from schema_typesD[OF assms(3)] obtain d schema where
    h: "has_schema result = Inr True" "py_getitem result ''data'' = Inr d"
       "py_getitem d ''__schema'' = Inr schema" "py_getitem schema ''types'' = Inr (JArr types)"
    by blast
  let ?st2 = "print Introspection_Enabled (st\<lparr>posts := posts st @ [p]\<rparr>)"
  have t: "introspection_try e p st =
        (case analyze_schema schema ?st2 of
           (Inl x, st3) \<Rightarrow> (Inl x, st3) | (Inr u, st3) \<Rightarrow> (Inr True, st3))"
    using assms(1,2) h
    by (simp add: introspection_try_def requests_post_def response_json_def Let_def)
  from analyze_schema_fields[OF h(4), of ?st2]
  have a: "fst (analyze_schema schema ?st2) = fst (analyze_types types (testable_fields st))"
       "testable_fields (snd (analyze_schema schema ?st2)) =
          snd (analyze_types types (testable_fields st))" by simp_all
  show ?thesis
    unfolding t using a
    by (cases "analyze_schema schema ?st2"; cases "fst (analyze_schema schema ?st2)") auto
qed

lemma test_introspection_schema:
  assumes "post e (length (posts st)) (introspection_request (self_url st) (self_headers st)) = Response r"
    "body_json r = Inr result" "schema_types result = Some types"
  shows "fst (test_introspection e st) = list_all type_ok types \<and>
         testable_fields (snd (test_introspection e st)) =
           snd (analyze_types types (testable_fields st))"
proof -
  let ?t = "introspection_try e (introspection_request (self_url st) (self_headers st)) st"
  note i = introspection_schema[OF assms]
  show ?thesis
  proof (cases "list_all type_ok types")
    case True
    then have "fst (analyze_types types (testable_fields st)) = Inr ()"
      by (simp add: analyze_types_returns_iff)
    with i have "fst ?t = Inr True" by simp
    from test_introspection_returned[OF this] i True show ?thesis by simp
  next
    case False
    from analyze_types_bad[OF False, of "testable_fields st"] obtain x where
      "fst (analyze_types types (testable_fields st)) = Inl x" by (auto simp: isl_def)
    with i have "fst ?t = Inl x" by simp
    from test_introspection_raised[OF this] i False show ?thesis by simp
  qed
qed

lemma run_with_schema:
  assumes "post e 0 (introspection_request u fixed_headers) = Response r"
    "body_json r = Inr result" "schema_types result = Some types" "list_all type_ok types"
  shows "posts (snd (run e u n)) =
           introspection_request u fixed_headers #
           posted_until_abort e
             (map (probe_request u fixed_headers) (planned_queries e (spec_analyze types) n)) 1 \<and>
         fst (run e u n) =
           (case plan_result e
                 (map (probe_request u fixed_headers) (planned_queries e (spec_analyze types) n)) 1 of
              Inr _ \<Rightarrow> Exit_Code 0 | Inl x \<Rightarrow> Uncaught x) \<and>
         testable_fields (snd (run e u n)) = spec_analyze types"
proof -
  let ?ti = "test_introspection e (tester u)"
  let ?s1 = "print Starting_Tests (snd ?ti)"
  from assms(1) have p: "post e (length (posts (tester u)))
      (introspection_request (self_url (tester u)) (self_headers (tester u))) = Response r" by simp
  from test_introspection_schema[OF p assms(2,3)] assms(4)
  have f: "fst ?ti = True" and t: "testable_fields (snd ?ti) = spec_analyze types"
    by (simp_all add: analyze_types_ok)
  note s = test_introspection_state[of e "tester u"]
  note g = all_fields_general[of e "spec_analyze types" n ?s1]
  let ?af = "test_all_fields e (spec_analyze types) n ?s1"
  have r: "run e u n = (case ?af of (Inl x, st2) \<Rightarrow> (Uncaught x, st2)
                         | (Inr _, st2) \<Rightarrow> (Exit_Code 0, st2))"
    using run_enabled[OF f, of n] t by simp
  let ?pr = "plan_result e
                 (map (probe_request u fixed_headers) (planned_queries e (spec_analyze types) n)) 1"
  from g s have fa: "fst ?af = ?pr" by simp
  show ?thesis
  proof (cases ?pr)
    case (Inr v)
    with fa have "fst ?af = Inr ()" by simp
    from case_returned[OF this] r have "run e u n = (Exit_Code 0, snd ?af)" by simp
    with g s t Inr show ?thesis by simp
  next
    case (Inl x)
    with fa have "fst ?af = Inl x" by simp
    from case_raised[OF this] r have "run e u n = (Uncaught x, snd ?af)" by simp
    with g s t Inl show ?thesis by simp
  qed
qed

lemma mock_server_simps [simp]:
  "post (mock_server i a) k (introspection_request u h) = i"
  "post (mock_server i a) k (probe_request u h q) = a k"
  "py_format (mock_server i a) (JStr s) = s"
  "clock (mock_server i a) k = real k"
  by (simp_all add: mock_server_def introspection_request_def probe_request_def)

lemma probe_request_query [simp]: "req_query (probe_request u h q) = q"
  by (simp add: probe_request_def)

lemma mock_schema_types:
  "schema_types mock_schema =
     Some [JObj [(''name'', JStr ''Query''),
              (''fields'', JArr [JObj [(''name'', JStr ''users''),
                                       (''type'', JObj [(''kind'', JStr ''OBJECT''),
                                                        (''name'', JStr ''User''),
                                                        (''ofType'', JNull)])]])]]"
  by (simp add: schema_types_def mock_schema_def)

lemma mock_types_ok:
  "list_all type_ok [JObj [(''name'', JStr ''Query''),
              (''fields'', JArr [JObj [(''name'', JStr ''users''),
                                       (''type'', JObj [(''kind'', JStr ''OBJECT''),
                                                        (''name'', JStr ''User''),
                                                        (''ofType'', JNull)])]])]]"
  by (simp add: type_ok_def fields_ok_def field_ok_def field_type_ref_def field_testable_def)

lemma mock_spec_analyze:
  "spec_analyze [JObj [(''name'', JStr ''Query''),
              (''fields'', JArr [JObj [(''name'', JStr ''users''),
                                       (''type'', JObj [(''kind'', JStr ''OBJECT''),
                                                        (''name'', JStr ''User''),
                                                        (''ofType'', JNull)])]])]]
     = [\<lparr>type_name = JStr ''Query'', field_name = JStr ''users''\<rparr>]"
  by (simp add: spec_analyze_def spec_type_output_def is_internal_def fields_of_def
      field_testable_def field_type_ref_def entry_def name_of_def)

subsection \<open>Claims about the run\<close>

text \<open>
  C6. When the introspection response lacks \<open>data.__schema\<close> (it has no \<open>data\<close> key, or
  the object under \<open>data\<close> has no \<open>__schema\<close> key), the run prints that introspection is
  disabled and that it cannot proceed, the list of testable fields stays empty, the
  introspection request is the only request ever posted, and the exit code is 0. For
  every other response without an object under \<open>data\<close> that holds a \<open>__schema\<close> key the
  run also ends on the message that it cannot proceed, with an empty list, no probe and
  the exit code 0.
\<close>

theorem no_schema_no_probes:
  "post e 0 (introspection_request u fixed_headers) = Response r \<and> body_json r = Inr result \<longrightarrow>
     (lacks_schema result \<longrightarrow>
        console (snd (run e u n)) = [Testing_Endpoint u, Introspection_Disabled, Cannot_Proceed] \<and>
        testable_fields (snd (run e u n)) = [] \<and>
        posts (snd (run e u n)) = [introspection_request u fixed_headers] \<and>
        fst (run e u n) = Exit_Code 0) \<and>
     (\<not> has_schema_path result \<longrightarrow>
        last (console (snd (run e u n))) = Cannot_Proceed \<and>
        testable_fields (snd (run e u n)) = [] \<and>
        posts (snd (run e u n)) = [introspection_request u fixed_headers] \<and>
        fst (run e u n) = Exit_Code 0)"
proof (intro impI)
  assume a: "post e 0 (introspection_request u fixed_headers) = Response r \<and> body_json r = Inr result"
  then have p: "post e (length (posts (tester u)))
      (introspection_request (self_url (tester u)) (self_headers (tester u))) = Response r"
    and b: "body_json r = Inr result" by simp_all
  have general: "last (console (snd (run e u n))) = Cannot_Proceed \<and>
        testable_fields (snd (run e u n)) = [] \<and>
        posts (snd (run e u n)) = [introspection_request u fixed_headers] \<and>
        fst (run e u n) = Exit_Code 0" if np: "\<not> has_schema_path result"
  proof -
    from test_introspection_no_path[OF p b np]
    have f: "fst (test_introspection e (tester u)) = False"
      and t: "testable_fields (snd (test_introspection e (tester u))) = []" by simp_all
    show ?thesis
      using test_introspection_state[of e "tester u"] t
      by (simp add: run_disabled[OF f, of n])
  qed
  have narrow: "console (snd (run e u n)) = [Testing_Endpoint u, Introspection_Disabled, Cannot_Proceed]"
    if l: "lacks_schema result"
  proof -
    have "introspection_try e (introspection_request (self_url (tester u)) (self_headers (tester u)))
            (tester u) =
          (Inr False, print Introspection_Disabled
             ((tester u)\<lparr>posts := posts (tester u) @
                [introspection_request (self_url (tester u)) (self_headers (tester u))]\<rparr>))"
      by (rule introspection_lacks[OF p b l])
    then have "test_introspection e (tester u) =
          (False, print Introspection_Disabled
             ((tester u)\<lparr>posts := [introspection_request u fixed_headers]\<rparr>))"
      using test_introspection_returned[of e "tester u" False] by simp
    then show ?thesis by (simp add: run_disabled)
  qed
  have "\<not> has_schema_path result" if "lacks_schema result"
    using that by (cases result) (auto split: option.splits json.splits)
  with general narrow
  show "(lacks_schema result \<longrightarrow>
        console (snd (run e u n)) = [Testing_Endpoint u, Introspection_Disabled, Cannot_Proceed] \<and>
        testable_fields (snd (run e u n)) = [] \<and>
        posts (snd (run e u n)) = [introspection_request u fixed_headers] \<and>
        fst (run e u n) = Exit_Code 0) \<and>
     (\<not> has_schema_path result \<longrightarrow>
        last (console (snd (run e u n))) = Cannot_Proceed \<and>
        testable_fields (snd (run e u n)) = [] \<and>
        posts (snd (run e u n)) = [introspection_request u fixed_headers] \<and>
        fst (run e u n) = Exit_Code 0)"
    by blast
qed

theorem no_schema_no_probes_witness:
  "console (snd (run (mock_server (Response \<lparr>body_text = ''{}'', body_json = Inr (JObj [])\<rparr>)
                        (\<lambda>k. Transport_Failure [])) ''http://host/graphql'' 100)) =
     [Testing_Endpoint ''http://host/graphql'', Introspection_Disabled, Cannot_Proceed] \<and>
   fst (run (mock_server (Response \<lparr>body_text = ''{}'', body_json = Inr (JObj [])\<rparr>)
                        (\<lambda>k. Transport_Failure [])) ''http://host/graphql'' 100) = Exit_Code 0 \<and>
   testable_fields (snd (run (mock_server (Response \<lparr>body_text = ''{}'', body_json = Inr (JObj [])\<rparr>)
                        (\<lambda>k. Transport_Failure [])) ''http://host/graphql'' 100)) = [] \<and>
   posts (snd (run (mock_server (Response \<lparr>body_text = ''{}'', body_json = Inr (JObj [])\<rparr>)
                        (\<lambda>k. Transport_Failure [])) ''http://host/graphql'' 100)) =
     [introspection_request ''http://host/graphql'' fixed_headers] \<and>
   posts (snd (run (mock_server (Response \<lparr>body_text = ''null'', body_json = Inr JNull\<rparr>)
                        (\<lambda>k. Transport_Failure [])) ''http://host/graphql'' 100)) =
     [introspection_request ''http://host/graphql'' fixed_headers]"
  using no_schema_no_probes
      [of "mock_server (Response \<lparr>body_text = ''{}'', body_json = Inr (JObj [])\<rparr>)
                        (\<lambda>k. Transport_Failure [])" "''http://host/graphql''"
          "\<lparr>body_text = ''{}'', body_json = Inr (JObj [])\<rparr>" "JObj []" 100]
    no_schema_no_probes
      [of "mock_server (Response \<lparr>body_text = ''null'', body_json = Inr JNull\<rparr>)
                        (\<lambda>k. Transport_Failure [])" "''http://host/graphql''"
          "\<lparr>body_text = ''null'', body_json = Inr JNull\<rparr>" "JNull" 100]
  by simp

text \<open>
  What \<^verbatim>\<open>_send_query\<close> returns, by what the call meets. On a transport failure: no body,
  the time 0 and the message \<open>Request error: \<close> followed by the detail. On a body that
  is not JSON: no body, the time between the two clock readings around the call, and
  \<open>Invalid JSON response: \<close> followed by the raw body. On a parsed body: the body, that
  time, and no message. (The code returns the integer 0 where the specification writes
  0.0; times are real numbers here.) When \<^verbatim>\<open>json()\<close> raises an exception that is neither
  a JSONDecodeError nor a RequestException, no handler catches it and \<^verbatim>\<open>_send_query\<close>
  raises it. In every case exactly one request is posted.
\<close>

lemma send_query_outcomes:
  "(post e (length (posts st)) (probe_request (self_url st) (self_headers st) q) = Transport_Failure d \<longrightarrow>
      fst (send_query e q st) = Inr (JNull, 0, Some (''Request error: '' @ d))) \<and>
   (post e (length (posts st)) (probe_request (self_url st) (self_headers st) q) = Response r \<and>
    body_json r = Inl JSONDecodeError \<longrightarrow>
      fst (send_query e q st) =
        Inr (JNull, clock e (Suc (clock_reads st)) - clock e (clock_reads st),
             Some (''Invalid JSON response: '' @ body_text r))) \<and>
   (post e (length (posts st)) (probe_request (self_url st) (self_headers st) q) = Response r \<and>
    body_json r = Inr v \<longrightarrow>
      fst (send_query e q st) =
        Inr (v, clock e (Suc (clock_reads st)) - clock e (clock_reads st), None)) \<and>
   (post e (length (posts st)) (probe_request (self_url st) (self_headers st) q) = Response r \<and>
    body_json r = Inl x \<and> x \<noteq> JSONDecodeError \<and> (\<forall>d. x \<noteq> RequestException d) \<longrightarrow>
      fst (send_query e q st) = Inl x) \<and>
   posts (snd (send_query e q st)) = posts st @ [probe_request (self_url st) (self_headers st) q]"
  using send_query_state[of e q st]
  by (simp add: send_query_transport send_query_not_json send_query_success send_query_json_raises)

text \<open>
  C7 says that \<^verbatim>\<open>_send_query\<close> returns one of three results and never raises. It fails on
  the code: the inner handler catches JSONDecodeError only and the outer one
  RequestException only, while \<^verbatim>\<open>test_introspection\<close> traps every exception of the same
  call. A body that holds an integer of 4301 digits makes \<^verbatim>\<open>json()\<close> raise ValueError,
  which \<^verbatim>\<open>_send_query\<close> lets through; as the answer to the first probe it ends the run.
\<close>

theorem send_query_raises_on_huge_integer:
  "fst (send_query (mock_server mock_schema_response (\<lambda>k. huge_integer_response))
          ''query { users { id name } }'' (tester ''http://host/graphql'')) = Inl ValueError \<and>
   fst (main (mock_server mock_schema_response (\<lambda>k. huge_integer_response))
          ''GraphQL.py'' [''http://host/graphql'']) = Uncaught ValueError \<and>
   posts (snd (main (mock_server mock_schema_response (\<lambda>k. huge_integer_response))
          ''GraphQL.py'' [''http://host/graphql''])) =
     [introspection_request ''http://host/graphql'' fixed_headers,
      probe_request ''http://host/graphql'' fixed_headers (alias_overloading_query ''users'' 100)]"
proof -
  let ?e = "mock_server mock_schema_response (\<lambda>k. huge_integer_response)"
  have "fst (send_query ?e ''query { users { id name } }'' (tester ''http://host/graphql'')) =
          Inl ValueError"
    using send_query_json_raises[of ?e "tester ''http://host/graphql''"
        "''query { users { id name } }''"
        "\<lparr>body_text = replicate 4301 (CHR ''1''), body_json = Inl ValueError\<rparr>" ValueError]
    by (simp add: huge_integer_response_def)
  moreover have "fst (main ?e ''GraphQL.py'' [''http://host/graphql'']) = Uncaught ValueError \<and>
      posts (snd (main ?e ''GraphQL.py'' [''http://host/graphql''])) =
        [introspection_request ''http://host/graphql'' fixed_headers,
         probe_request ''http://host/graphql'' fixed_headers (alias_overloading_query ''users'' 100)]"
    using run_with_schema[of ?e "''http://host/graphql''"
        "\<lparr>body_text = mock_schema_text, body_json = Inr mock_schema\<rparr>"
        mock_schema _ 100, OF _ _ mock_schema_types mock_types_ok]
    by (simp add: main_default mock_spec_analyze planned_queries_def field_queries_def
        mock_schema_response_def huge_integer_response_def aborting_def)
  ultimately show ?thesis by simp
qed

text \<open>
  The end-to-end property of the specification: with the mock server the run posts the
  introspection request and the three probes of \<open>Query.users\<close>, in the order ALIAS,
  DIRECTIVE, DUPLICATE, each built with the default count 100.
\<close>

lemma end_to_end_mock_three_probes:
  "fst (main (mock_server mock_schema_response (\<lambda>k. mock_users_response))
          ''GraphQL.py'' [''http://host/graphql'']) = Exit_Code 0 \<and>
   posts (snd (main (mock_server mock_schema_response (\<lambda>k. mock_users_response))
          ''GraphQL.py'' [''http://host/graphql''])) =
     [introspection_request ''http://host/graphql'' fixed_headers,
      probe_request ''http://host/graphql'' fixed_headers (alias_overloading_query ''users'' 100),
      probe_request ''http://host/graphql'' fixed_headers (directive_overloading_query ''users'' 100),
      probe_request ''http://host/graphql'' fixed_headers (field_duplication_query ''users'' 100)]"
  using run_with_schema[of "mock_server mock_schema_response (\<lambda>k. mock_users_response)"
      "''http://host/graphql''" "\<lparr>body_text = mock_schema_text, body_json = Inr mock_schema\<rparr>"
      mock_schema _ 100, OF _ _ mock_schema_types mock_types_ok]
  by (simp add: main_default mock_spec_analyze planned_queries_def field_queries_def
      mock_schema_response_def mock_users_response_def aborting_def)

text \<open>
  C8 says that every testable field gets its three probes. It fails on the code: when a
  probe is answered with a JSON body that is truthy and not an object, here the array
  \<open>[1]\<close>, \<^verbatim>\<open>result.get('errors')\<close> raises AttributeError, nothing catches it, and the run
  ends after the first probe. The DIRECTIVE and DUPLICATE probes of the field are never
  built or sent.
\<close>

theorem probe_answered_by_list_aborts_run:
  "fst (main (mock_server mock_schema_response
                (\<lambda>k. Response \<lparr>body_text = ''[1]'', body_json = Inr (JArr [JNum 1])\<rparr>))
          ''GraphQL.py'' [''http://host/graphql'']) = Uncaught AttributeError \<and>
   posts (snd (main (mock_server mock_schema_response
                (\<lambda>k. Response \<lparr>body_text = ''[1]'', body_json = Inr (JArr [JNum 1])\<rparr>))
          ''GraphQL.py'' [''http://host/graphql''])) =
     [introspection_request ''http://host/graphql'' fixed_headers,
      probe_request ''http://host/graphql'' fixed_headers (alias_overloading_query ''users'' 100)] \<and>
   testable_fields (snd (main (mock_server mock_schema_response
                (\<lambda>k. Response \<lparr>body_text = ''[1]'', body_json = Inr (JArr [JNum 1])\<rparr>))
          ''GraphQL.py'' [''http://host/graphql''])) =
     [\<lparr>type_name = JStr ''Query'', field_name = JStr ''users''\<rparr>]"
  using run_with_schema[of "mock_server mock_schema_response
                (\<lambda>k. Response \<lparr>body_text = ''[1]'', body_json = Inr (JArr [JNum 1])\<rparr>)"
      "''http://host/graphql''" "\<lparr>body_text = mock_schema_text, body_json = Inr mock_schema\<rparr>"
      mock_schema _ 100, OF _ _ mock_schema_types mock_types_ok]
  by (simp add: main_default mock_spec_analyze planned_queries_def field_queries_def
      mock_schema_response_def aborting_def)

text \<open>
  A transport failure by itself never ends the run: \<^verbatim>\<open>_send_query\<close> turns it into the
  message \<open>Request error: ...\<close>, and each of the three test functions then returns
  normally, having printed the time 0 and the protection hint. The loop over the fields
  posts the planned probes in order and stops only after an answer that makes a probe
  raise, which a transport failure is not.
\<close>

lemma transport_failure_handled:
  "(post e (length (posts st)) (probe_request (self_url st) (self_headers st) q) = Transport_Failure d \<longrightarrow>
      fst (send_query e q st) = Inr (JNull, 0, Some (''Request error: '' @ d))) \<and>
   (post e (length (posts st))
      (probe_request (self_url st) (self_headers st)
         (alias_overloading_query (py_format e fname) n)) = Transport_Failure d \<longrightarrow>
      fst (test_alias_overloading e fname n st) = Inr () \<and>
      console (snd (test_alias_overloading e fname n st)) =
        console st @ [Testing_Alias, Response_Time 0, Errors_Detected]) \<and>
   (post e (length (posts st))
      (probe_request (self_url st) (self_headers st)
         (directive_overloading_query (py_format e fname) n)) = Transport_Failure d \<longrightarrow>
      fst (test_directive_overloading e fname n st) = Inr () \<and>
      console (snd (test_directive_overloading e fname n st)) =
        console st @ [Testing_Directive, Response_Time 0, Errors_Detected]) \<and>
   (post e (length (posts st))
      (probe_request (self_url st) (self_headers st)
         (field_duplication_query (py_format e fname) n)) = Transport_Failure d \<longrightarrow>
      fst (test_field_duplication e fname n st) = Inr () \<and>
      console (snd (test_field_duplication e fname n st)) =
        console st @ [Testing_Duplication, Response_Time 0, Errors_Detected]) \<and>
   posts (snd (test_all_fields e tfs n st)) =
     posts st @ posted_until_abort e
       (map (probe_request (self_url st) (self_headers st)) (planned_queries e tfs n))
       (length (posts st)) \<and>
   (none_aborting e
      (map (probe_request (self_url st) (self_headers st)) (planned_queries e tfs n))
      (length (posts st)) \<longrightarrow>
      fst (test_all_fields e tfs n st) = Inr () \<and>
      posts (snd (test_all_fields e tfs n st)) =
        posts st @ map (probe_request (self_url st) (self_headers st)) (planned_queries e tfs n))"
proof (intro conjI impI)
  show "fst (send_query e q st) = Inr (JNull, 0, Some (''Request error: '' @ d))"
    if "post e (length (posts st)) (probe_request (self_url st) (self_headers st) q) = Transport_Failure d"
    using that by (simp add: send_query_transport)
  note g = all_fields_general[of e tfs n st]
  show "posts (snd (test_all_fields e tfs n st)) =
     posts st @ posted_until_abort e
       (map (probe_request (self_url st) (self_headers st)) (planned_queries e tfs n))
       (length (posts st))" using g by simp
  show "fst (test_all_fields e tfs n st) = Inr ()"
    if "none_aborting e
      (map (probe_request (self_url st) (self_headers st)) (planned_queries e tfs n))
      (length (posts st))" using g that by (simp add: plan_result_returns_iff)
  show "posts (snd (test_all_fields e tfs n st)) =
        posts st @ map (probe_request (self_url st) (self_headers st)) (planned_queries e tfs n)"
    if "none_aborting e
      (map (probe_request (self_url st) (self_headers st)) (planned_queries e tfs n))
      (length (posts st))" using g that by (simp add: posted_until_abort_benign)
qed (use probe_transport_failure[of e "print Testing_Alias st" _ d]
         probe_transport_failure[of e "print Testing_Directive st" _ d]
         probe_transport_failure[of e "print Testing_Duplication st" _ d]
     in \<open>simp_all add: test_alias_overloading_probe test_directive_overloading_probe
           test_field_duplication_probe\<close>)


text \<open>
  C10. Whatever exception the \<^verbatim>\<open>try\<close> block of \<^verbatim>\<open>test_introspection\<close> raises, the function
  prints it and returns False: a transport failure (RequestException), any exception of
  \<^verbatim>\<open>json()\<close> (JSONDecodeError on a body that is not JSON), a response whose \<open>data\<close> is
  null (TypeError on the membership test), a types array with an ill-shaped entry such
  as one without \<open>name\<close>. In the last case the testable fields appended before the
  exception stay in the list. Whenever \<^verbatim>\<open>test_introspection\<close> returns False, the run
  posts nothing but the introspection request, keeps the list as it is, prints that it
  cannot proceed and exits with code 0.
\<close>

theorem introspection_exception_trapped:
  "(fst (introspection_try e (introspection_request (self_url st) (self_headers st)) st) = Inl x \<longrightarrow>
      test_introspection e st =
        (False, print (Introspection_Error x)
           (snd (introspection_try e (introspection_request (self_url st) (self_headers st)) st)))) \<and>
   (post e (length (posts st)) (introspection_request (self_url st) (self_headers st)) =
      Transport_Failure d \<longrightarrow>
      fst (introspection_try e (introspection_request (self_url st) (self_headers st)) st) =
        Inl (RequestException d)) \<and>
   (post e (length (posts st)) (introspection_request (self_url st) (self_headers st)) = Response r \<and>
    body_json r = Inl y \<longrightarrow>
      fst (introspection_try e (introspection_request (self_url st) (self_headers st)) st) =
        Inl y) \<and>
   (post e (length (posts st)) (introspection_request (self_url st) (self_headers st)) = Response r \<and>
    body_json r = Inr (JObj kvs) \<and> map_of kvs ''data'' = Some JNull \<longrightarrow>
      fst (introspection_try e (introspection_request (self_url st) (self_headers st)) st) =
        Inl TypeError) \<and>
   (post e (length (posts st)) (introspection_request (self_url st) (self_headers st)) = Response r \<and>
    body_json r = Inr result \<and> schema_types result = Some types \<and> \<not> list_all type_ok types \<longrightarrow>
      isl (fst (introspection_try e (introspection_request (self_url st) (self_headers st)) st)) \<and>
      fst (test_introspection e st) = False \<and>
      testable_fields (snd (test_introspection e st)) =
        snd (analyze_types types (testable_fields st))) \<and>
   (fst (test_introspection e (tester u)) = False \<longrightarrow>
      fst (run e u n) = Exit_Code 0 \<and>
      posts (snd (run e u n)) = [introspection_request u fixed_headers] \<and>
      testable_fields (snd (run e u n)) = testable_fields (snd (test_introspection e (tester u))) \<and>
      last (console (snd (run e u n))) = Cannot_Proceed)"
proof (intro conjI impI)
  let ?p = "introspection_request (self_url st) (self_headers st)"
  show "test_introspection e st = (False, print (Introspection_Error x) (snd (introspection_try e ?p st)))"
    if "fst (introspection_try e ?p st) = Inl x"
    using that by (rule test_introspection_raised)
  show "fst (introspection_try e ?p st) = Inl (RequestException d)"
    if "post e (length (posts st)) ?p = Transport_Failure d"
    using that by (simp add: introspection_try_def requests_post_def)
  show "fst (introspection_try e ?p st) = Inl y"
    if "post e (length (posts st)) ?p = Response r \<and> body_json r = Inl y"
    using that by (simp add: introspection_try_def requests_post_def response_json_def)
  show "fst (introspection_try e ?p st) = Inl TypeError"
    if h: "post e (length (posts st)) ?p = Response r \<and> body_json r = Inr (JObj kvs) \<and>
        map_of kvs ''data'' = Some JNull"
  proof -
    from h have "''data'' \<in> fst ` set kvs" by (metis map_of_eq_None_iff option.distinct(1))
    with h have "has_schema (JObj kvs) = Inl TypeError" by (simp add: has_schema_def)
    with h show ?thesis
      by (simp add: introspection_try_def requests_post_def response_json_def)
  qed
  {
    assume h: "post e (length (posts st)) ?p = Response r \<and> body_json r = Inr result \<and>
      schema_types result = Some types \<and> \<not> list_all type_ok types"
    then have p: "post e (length (posts st)) ?p = Response r" and b: "body_json r = Inr result"
      and s: "schema_types result = Some types" and n: "\<not> list_all type_ok types" by simp_all
    from analyze_types_bad[OF n, of "testable_fields st"] introspection_schema[OF p b s]
    show "isl (fst (introspection_try e ?p st))"
      by (auto simp: isl_def)
    from test_introspection_schema[OF p b s] n
    show "fst (test_introspection e st) = False"
      and "testable_fields (snd (test_introspection e st)) =
             snd (analyze_types types (testable_fields st))" by simp_all
  }
  assume f: "fst (test_introspection e (tester u)) = False"
  note r = run_disabled[OF f, of n]
  show "fst (run e u n) = Exit_Code 0" by (simp add: r)
  show "posts (snd (run e u n)) = [introspection_request u fixed_headers]"
    using test_introspection_state[of e "tester u"] by (simp add: r)
  show "testable_fields (snd (run e u n)) = testable_fields (snd (test_introspection e (tester u)))"
    by (simp add: r)
  show "last (console (snd (run e u n))) = Cannot_Proceed" by (simp add: r)
qed

theorem introspection_exception_trapped_witness:
  "fst (test_introspection
          (mock_server (Response \<lparr>body_text = nameless_schema_text, body_json = Inr nameless_schema\<rparr>)
             (\<lambda>k. Transport_Failure []))
          (tester ''http://host/graphql'')) = False \<and>
   fst (run (mock_server (Response \<lparr>body_text = nameless_schema_text, body_json = Inr nameless_schema\<rparr>)
             (\<lambda>k. Transport_Failure [])) ''http://host/graphql'' 100) = Exit_Code 0 \<and>
   posts (snd (run (mock_server (Response \<lparr>body_text = nameless_schema_text, body_json = Inr nameless_schema\<rparr>)
             (\<lambda>k. Transport_Failure [])) ''http://host/graphql'' 100)) =
     [introspection_request ''http://host/graphql'' fixed_headers] \<and>
   testable_fields (snd (run (mock_server (Response \<lparr>body_text = nameless_schema_text, body_json = Inr nameless_schema\<rparr>)
             (\<lambda>k. Transport_Failure [])) ''http://host/graphql'' 100)) =
     [\<lparr>type_name = JStr ''Query'', field_name = JStr ''users''\<rparr>] \<and>
   console (snd (run (mock_server (Transport_Failure ''refused'') (\<lambda>k. Transport_Failure []))
                  ''http://host/graphql'' 100)) =
     [Testing_Endpoint ''http://host/graphql'', Introspection_Error (RequestException ''refused''),
      Cannot_Proceed] \<and>
   posts (snd (run (mock_server (Transport_Failure ''refused'') (\<lambda>k. Transport_Failure []))
                  ''http://host/graphql'' 100)) =
     [introspection_request ''http://host/graphql'' fixed_headers]"
proof -
  let ?e = "mock_server (Response \<lparr>body_text = nameless_schema_text, body_json = Inr nameless_schema\<rparr>)
             (\<lambda>k. Transport_Failure [])"
  let ?e2 = "mock_server (Transport_Failure ''refused'') (\<lambda>k. Transport_Failure [])"
  let ?types = "[JObj [(''name'', JStr ''Query''),
              (''fields'', JArr [JObj [(''name'', JStr ''users''),
                                       (''type'', JObj [(''kind'', JStr ''LIST'')])]])],
        JObj [(''kind'', JStr ''OBJECT'')],
        JObj [(''name'', JStr ''Mutation''),
              (''fields'', JArr [JObj [(''name'', JStr ''addUser''),
                                       (''type'', JObj [(''kind'', JStr ''OBJECT'')])]])]]"
  have st: "schema_types nameless_schema = Some ?types"
    by (simp add: schema_types_def nameless_schema_def)
  have nok: "\<not> list_all type_ok ?types" by (simp add: type_ok_def)
  have an: "snd (analyze_types ?types []) = [\<lparr>type_name = JStr ''Query'', field_name = JStr ''users''\<rparr>]"
    by (simp add: analyze_type_def analyze_field_def is_object_def)
  note t1 = introspection_exception_trapped
      [where e = ?e and st = "tester ''http://host/graphql''" and u = "''http://host/graphql''"
         and n = 100 and result = nameless_schema and types = ?types
         and r = "\<lparr>body_text = nameless_schema_text, body_json = Inr nameless_schema\<rparr>"]
  note t2 = introspection_exception_trapped
      [where e = ?e2 and st = "tester ''http://host/graphql''" and u = "''http://host/graphql''"
         and n = 100 and d = "''refused''" and x = "RequestException ''refused''"]
  from t1 st nok an have a:
    "fst (test_introspection ?e (tester ''http://host/graphql'')) = False"
    "testable_fields (snd (test_introspection ?e (tester ''http://host/graphql''))) =
       [\<lparr>type_name = JStr ''Query'', field_name = JStr ''users''\<rparr>]"
    by simp_all
  from t1 a have b: "fst (run ?e ''http://host/graphql'' 100) = Exit_Code 0"
    "posts (snd (run ?e ''http://host/graphql'' 100)) =
       [introspection_request ''http://host/graphql'' fixed_headers]"
    "testable_fields (snd (run ?e ''http://host/graphql'' 100)) =
       [\<lparr>type_name = JStr ''Query'', field_name = JStr ''users''\<rparr>]"
    by simp_all
  from t2 have c: "test_introspection ?e2 (tester ''http://host/graphql'') =
      (False, print (Introspection_Error (RequestException ''refused''))
         (snd (introspection_try ?e2 (introspection_request ''http://host/graphql'' fixed_headers)
            (tester ''http://host/graphql''))))"
    by simp
  have d: "snd (introspection_try ?e2 (introspection_request ''http://host/graphql'' fixed_headers)
            (tester ''http://host/graphql'')) =
           (tester ''http://host/graphql'')\<lparr>posts := [introspection_request ''http://host/graphql'' fixed_headers]\<rparr>"
    by (simp add: introspection_try_def requests_post_def)
  from c d have "console (snd (run ?e2 ''http://host/graphql'' 100)) =
     [Testing_Endpoint ''http://host/graphql'', Introspection_Error (RequestException ''refused''),
      Cannot_Proceed]"
    and "posts (snd (run ?e2 ''http://host/graphql'' 100)) =
     [introspection_request ''http://host/graphql'' fixed_headers]"
    by (simp_all add: run_disabled)
  with a b show ?thesis by simp
qed

end
